theory Spec2Isabelle
  imports Complex_Main "HOL-Library.Word" "HOL-Library.Sublist"
begin

section \<open>JavaScript values used by the application\<close>

text \<open>
  A string is a list of code units below 256, the Latin-1 range of JavaScript's strings.
  On that range \<open>toLowerCase\<close> adds 32 to the code of a capital letter, which is a
  code from 65 to 90 (\<open>A\<close> to \<open>Z\<close>) or from 192 to 222 except 215 (the accented
  capitals; 215 is the multiplication sign), and leaves every other code unit as it is;
  \<open>trim\<close> removes tab, line feed, vertical tab, form feed, carriage return, space and
  no-break space from both ends. A string is truthy when it is not empty; an optional
  value (\<open>undefined\<close> is \<open>None\<close>) is truthy when it is present and not empty.
\<close>

definition toLowerCase_char :: "char \<Rightarrow> char" where
  "toLowerCase_char c =
     (let n = (of_char c :: nat)
      in if (65 \<le> n \<and> n \<le> 90) \<or> (192 \<le> n \<and> n \<le> 222 \<and> n \<noteq> 215)
         then char_of (n + 32) else c)"

definition toLowerCase :: "string \<Rightarrow> string" where
  "toLowerCase s = map toLowerCase_char s"

definition is_space :: "char \<Rightarrow> bool" where
  "is_space c =
     (c \<in> set [CHR 0x09, CHR 0x0A, CHR 0x0B, CHR 0x0C, CHR 0x0D, CHR '' '', CHR 0xA0])"

definition trim :: "string \<Rightarrow> string" where
  "trim s = rev (dropWhile is_space (rev (dropWhile is_space s)))"

definition truthy :: "string \<Rightarrow> bool" where
  "truthy s = (s \<noteq> [])"

definition truthy_opt :: "string option \<Rightarrow> bool" where
  "truthy_opt v = (case v of None \<Rightarrow> False | Some s \<Rightarrow> truthy s)"

text \<open>\<open>a || b\<close> on optional strings, and \<open>a || ''\<close> with a string default.\<close>

definition js_or :: "string option \<Rightarrow> string option \<Rightarrow> string option" where
  "js_or a b = (if truthy_opt a then a else b)"

definition or_default :: "string option \<Rightarrow> string \<Rightarrow> string" where
  "or_default a d = (case a of None \<Rightarrow> d | Some s \<Rightarrow> if truthy s then s else d)"

text \<open>A value inside a template literal: \<open>undefined\<close> prints as the word itself.\<close>

definition interp :: "string option \<Rightarrow> string" where
  "interp v = (case v of None \<Rightarrow> ''undefined'' | Some s \<Rightarrow> s)"

section \<open>The data model (types)\<close>

text \<open>
  Field names are the source's; those of a flashcard that clash with a keyword or with a
  field of the lookup result carry the prefix \<open>fc_\<close>, those of the lookup result the
  prefix \<open>r_\<close>.
\<close>

datatype VisualType = Image | SVG | Video

record Flashcard =
  fc_id :: string
  sourceText :: string
  fc_definition :: string
  fc_story :: string
  fc_translation :: string
  fc_definitionTranslation :: string
  fc_storyTranslation :: string
  targetLangCode :: string
  sourceLangCode :: string
  createdAt :: nat
  fc_visualType :: "VisualType option"
  fc_visualContent :: "string option"

text \<open>The running lookup: every field is optional in the interface.\<close>

record TranslationResult =
  r_definition :: "string option"
  r_story :: "string option"
  r_translation :: "string option"
  r_definitionTranslation :: "string option"
  r_storyTranslation :: "string option"

record LanguageOption =
  code :: string
  label :: string
  defaultVoice :: string
  altVoice :: "string option"

section \<open>The flashcard store (App)\<close>

text \<open>
  \<open>addFlashcard\<close> looks for a card with the same lower-cased source text in the
  collection it was rendered with and, when there is none, puts the new card in front.
  Each user action is handled after the previous one has been rendered, so the collection
  searched is the current one.
\<close>

definition same_source :: "Flashcard \<Rightarrow> Flashcard \<Rightarrow> bool" where
  "same_source newCard f = (toLowerCase (sourceText f) = toLowerCase (sourceText newCard))"

definition addFlashcard :: "Flashcard \<Rightarrow> Flashcard list \<Rightarrow> Flashcard list" where
  "addFlashcard newCard flashcards =
     (if find (same_source newCard) flashcards = None then newCard # flashcards else flashcards)"

definition removeFlashcard :: "string \<Rightarrow> Flashcard list \<Rightarrow> Flashcard list" where
  "removeFlashcard i flashcards = filter (\<lambda>c. fc_id c \<noteq> i) flashcards"

text \<open>A sample card with the given identifier and source text.\<close>

definition demo_card :: "string \<Rightarrow> string \<Rightarrow> Flashcard" where
  "demo_card i src =
     \<lparr>fc_id = i, sourceText = src, fc_definition = '''', fc_story = '''',
      fc_translation = '''', fc_definitionTranslation = '''', fc_storyTranslation = '''',
      targetLangCode = ''zh-CN'', sourceLangCode = ''en'', createdAt = 0,
      fc_visualType = Some Image, fc_visualContent = None\<rparr>"

section \<open>The generation client and the audio subsystem (geminiService)\<close>

subsection \<open>The backend\<close>

text \<open>
  The AI backend is outside the repository. A call to it is a request, identified by the
  capability and the arguments from which the source builds the prompt; its outcome is
  either a rejection (the awaited promise throws) or a response, of which the source reads
  \<open>response.text\<close> and \<open>response.candidates?.[0]?.content?.parts?.[0]\<close>.
  \<open>JSON.parse\<close> and \<open>atob\<close> are browser functions, taken as parameters;
  the object that \<open>JSON.parse\<close> returns is read at five string-valued properties.
\<close>

datatype error =
  BackendError | SyntaxError | RangeError | NotSupportedError | InvalidCharacterError

record InlineData =
  inline_data :: "string option"

record Part =
  inlineData :: "InlineData option"

record Response =
  resp_text :: "string option"
  resp_part0 :: "Part option"

datatype Role = User | Model

datatype request =
    TranslateReq string string
  | RichContextReq string string string
  | ChatReq string string "(Role \<times> string) list"
  | ImageReq string string string
  | SvgReq string string string
  | SpeechReq "string option" string

type_synonym backend = "request \<Rightarrow> error + Response"

type_synonym js_object = "string \<rightharpoonup> string"

type_synonym json_parse = "string \<Rightarrow> error + js_object"

subsection \<open>PCM decoding\<close>

record AudioBuffer =
  sampleRate :: nat
  numberOfChannels :: nat
  channelData :: "real list list"

definition decodeBase64 :: "(string \<Rightarrow> error + string) \<Rightarrow> string \<Rightarrow> error + 8 word list" where
  "decodeBase64 atob base64 =
     (case atob base64 of
        Inl e \<Rightarrow> Inl e
      | Inr binaryString \<Rightarrow> Inr (map (\<lambda>c. of_nat (of_char c)) binaryString))"

text \<open>
  \<open>new Int16Array(data.buffer)\<close> views the bytes two at a time, low byte first, as
  signed 16-bit numbers, and throws a RangeError when their number is odd.
\<close>

fun int16_view :: "8 word list \<Rightarrow> 16 word list" where
  "int16_view (lo # hi # rest) = word_cat hi lo # int16_view rest"
| "int16_view _ = []"

definition pcm_sample :: "16 word \<Rightarrow> real" where
  "pcm_sample s = real_of_int (sint s) / 32768"

text \<open>
  \<open>createBuffer\<close> rejects a buffer with no channel or no frame. A write past the end
  of a channel is ignored, so each channel holds \<open>frameCount\<close> samples, rounded down.
\<close>

definition decodeAudioData :: "8 word list \<Rightarrow> nat \<Rightarrow> nat \<Rightarrow> error + AudioBuffer" where
  "decodeAudioData data rate numChannels =
     (if odd (length data) then Inl RangeError
      else
        let dataInt16 = int16_view data;
            frameCount = length dataInt16 div numChannels
        in if numChannels = 0 \<or> frameCount = 0 then Inl NotSupportedError
           else Inr \<lparr>sampleRate = rate, numberOfChannels = numChannels,
                  channelData =
                    map (\<lambda>channel.
                           map (\<lambda>i. pcm_sample (dataInt16 ! (i * numChannels + channel)))
                             [0..<frameCount])
                      [0..<numChannels]\<rparr>)"

subsection \<open>Playback\<close>

text \<open>
  The module keeps one audio context and the source node it believes to be playing.
  The browser side of a source node is its status: it plays until its buffer runs out or
  \<open>stop()\<close> is called, and then the browser dispatches one \<open>ended\<close> event to it,
  later, as a task of its own. Every call of \<open>playAudio\<close> is numbered; the numbers
  of the calls whose \<open>onEnded\<close> callback has run are recorded in order.
\<close>

datatype NodeStatus = Playing | EndPending | Finished

datatype CtxState = Suspended | Running

record SourceNode =
  status :: NodeStatus
  owner :: nat
  hasOnEnded :: bool
  buffer :: AudioBuffer

record AudioState =
  audioContext :: "CtxState option"
  currentSource :: "nat option"
  nodes :: "SourceNode list"
  calls :: nat
  endedCalls :: "nat list"
  audioConsole :: "string list"

definition stop_node :: "nat \<Rightarrow> SourceNode list \<Rightarrow> SourceNode list" where
  "stop_node i ns =
     (if i < length ns \<and> status (ns ! i) = Playing
      then ns[i := (ns ! i)\<lparr>status := EndPending\<rparr>] else ns)"

definition stopAudio :: "AudioState \<Rightarrow> AudioState" where
  "stopAudio st =
     (case currentSource st of
        None \<Rightarrow> st
      | Some i \<Rightarrow> st\<lparr>nodes := stop_node i (nodes st), currentSource := None\<rparr>)"

text \<open>The catch block of \<open>playAudio\<close>, for call number \<open>k\<close>.\<close>

definition playback_failed :: "nat \<Rightarrow> bool \<Rightarrow> AudioState \<Rightarrow> AudioState" where
  "playback_failed k onEnded st =
     st\<lparr>audioConsole := audioConsole st @ [''Audio playback failed''],
        endedCalls := (if onEnded then endedCalls st @ [k] else endedCalls st)\<rparr>"

text \<open>The new source node is created, given its handler, started and remembered.\<close>

definition playback_started :: "nat \<Rightarrow> bool \<Rightarrow> AudioBuffer \<Rightarrow> AudioState \<Rightarrow> AudioState" where
  "playback_started k onEnded audioBuffer st =
     st\<lparr>nodes := nodes st @
               [\<lparr>status = Playing, owner = k, hasOnEnded = onEnded, buffer = audioBuffer\<rparr>],
        currentSource := Some (length (nodes st))\<rparr>"

definition playAudio ::
  "(string \<Rightarrow> error + string) \<Rightarrow> string \<Rightarrow> bool \<Rightarrow> AudioState \<Rightarrow> AudioState" where
  "playAudio atob base64Audio onEnded st =
     (let k = calls st;
          st1 = stopAudio (st\<lparr>calls := Suc k\<rparr>);
          st2 = st1\<lparr>audioContext := Some Running\<rparr>
      in case decodeBase64 atob base64Audio of
           Inl e \<Rightarrow> playback_failed k onEnded st2
         | Inr bytes \<Rightarrow>
             (case decodeAudioData bytes 24000 1 of
                Inl e \<Rightarrow> playback_failed k onEnded st2
              | Inr audioBuffer \<Rightarrow> playback_started k onEnded audioBuffer st2))"

text \<open>The buffer of node \<open>i\<close> runs out.\<close>

definition buffer_end :: "nat \<Rightarrow> AudioState \<Rightarrow> AudioState" where
  "buffer_end i st = st\<lparr>nodes := stop_node i (nodes st)\<rparr>"

text \<open>The browser dispatches \<open>ended\<close> to node \<open>i\<close>: its \<open>onended\<close> handler runs.\<close>

definition onended :: "nat \<Rightarrow> AudioState \<Rightarrow> AudioState" where
  "onended i st =
     (if i < length (nodes st) \<and> status (nodes st ! i) = EndPending
      then st\<lparr>nodes := (nodes st)[i := (nodes st ! i)\<lparr>status := Finished\<rparr>],
              currentSource := None,
              endedCalls := (if hasOnEnded (nodes st ! i)
                             then endedCalls st @ [owner (nodes st ! i)] else endedCalls st)\<rparr>
      else st)"

datatype audio_event = Play string bool | Stop | BufferEnd nat | EndedEvent nat

fun audio_step :: "(string \<Rightarrow> error + string) \<Rightarrow> AudioState \<Rightarrow> audio_event \<Rightarrow> AudioState" where
  "audio_step atob st (Play p cb) = playAudio atob p cb st"
| "audio_step atob st Stop = stopAudio st"
| "audio_step atob st (BufferEnd i) = buffer_end i st"
| "audio_step atob st (EndedEvent i) = onended i st"

definition audio_run :: "(string \<Rightarrow> error + string) \<Rightarrow> audio_event list \<Rightarrow> AudioState \<Rightarrow> AudioState" where
  "audio_run atob evs st = foldl (audio_step atob) st evs"

definition audio_init :: AudioState where
  "audio_init = \<lparr>audioContext = None, currentSource = None, nodes = [], calls = 0,
                 endedCalls = [], audioConsole = []\<rparr>"

definition active_sources :: "AudioState \<Rightarrow> nat list" where
  "active_sources st = filter (\<lambda>i. status (nodes st ! i) = Playing) [0..<length (nodes st)]"

subsection \<open>The capability calls\<close>

text \<open>
  A call returns its value, or the error it throws, together with the lines it writes to
  the console. Building the client object from the configured key is taken to succeed;
  what a call does then depends on the outcome of its one request to the backend.
\<close>

definition translateTextSimple ::
  "backend \<Rightarrow> string \<Rightarrow> string \<Rightarrow> (error + string) \<times> string list" where
  "translateTextSimple be txt targetLang =
     (case be (TranslateReq txt targetLang) of
        Inr response \<Rightarrow> (Inr (or_default (map_option trim (resp_text response)) []), [])
      | Inl e \<Rightarrow> (Inr [], [''Fast translation failed'']))"

definition getRichContext ::
  "json_parse \<Rightarrow> backend \<Rightarrow> string \<Rightarrow> string \<Rightarrow> string \<Rightarrow> (error + js_object) \<times> string list" where
  "getRichContext parse be txt sourceLang targetLang =
     (case be (RichContextReq txt sourceLang targetLang) of
        Inr response \<Rightarrow> (parse (or_default (resp_text response) ''{}''), [])
      | Inl e \<Rightarrow> (Inl e, []))"

definition systemInstruction :: "string \<Rightarrow> string" where
  "systemInstruction context =
     ''You are a friendly language tutor. '' @ [CHR 0x0A] @ ''  Context: '' @ context @ ''.''
       @ [CHR 0x0A] @ ''  Answer questions concisely.''"

definition chatWithAI ::
  "backend \<Rightarrow> string \<Rightarrow> string \<Rightarrow> (Role \<times> string) list \<Rightarrow> (error + string) \<times> string list" where
  "chatWithAI be message context history =
     (case be (ChatReq message (systemInstruction context) history) of
        Inr result \<Rightarrow> (Inr (or_default (resp_text result) []), [])
      | Inl e \<Rightarrow> (Inl e, []))"

definition generateVisualImage ::
  "backend \<Rightarrow> string \<Rightarrow> string option \<Rightarrow> string option
     \<Rightarrow> (error + string option) \<times> string list" where
  "generateVisualImage be inputTxt definitionTxt storyTxt =
     (case be (ImageReq inputTxt (or_default definitionTxt []) (or_default storyTxt [])) of
        Inr response \<Rightarrow>
          (case resp_part0 response of
             None \<Rightarrow> (Inr None, [])
           | Some part \<Rightarrow>
               (case inlineData part of
                  None \<Rightarrow> (Inr None, [])
                | Some d \<Rightarrow> (Inr (Some (''data:image/png;base64,'' @ interp (inline_data d))), [])))
      | Inl e \<Rightarrow> (Inl e, [''Image gen failed'']))"

text \<open>\<open>s.replace(/pat/g, '')\<close> for a literal pattern, and \<open>s.includes(pat)\<close>.\<close>

function remove_all :: "string \<Rightarrow> string \<Rightarrow> string" where
  "remove_all pat [] = []"
| "remove_all pat (c # cs) =
     (if pat \<noteq> [] \<and> prefix pat (c # cs) then remove_all pat (drop (length pat) (c # cs))
      else c # remove_all pat cs)"
  by pat_completeness auto
termination
  by (relation "measure (\<lambda>(pat, s). length s)") auto

definition includes_str :: "string \<Rightarrow> string \<Rightarrow> bool" where
  "includes_str s pat = list_ex (prefix pat) (suffixes s)"

definition generateVisualSvg ::
  "backend \<Rightarrow> string \<Rightarrow> string option \<Rightarrow> string option
     \<Rightarrow> (error + string option) \<times> string list" where
  "generateVisualSvg be inputTxt definitionTxt storyTxt =
     (case be (SvgReq inputTxt (or_default definitionTxt []) (or_default storyTxt [])) of
        Inr response \<Rightarrow>
          (let svg0 = or_default (resp_text response) [];
               svg = trim (remove_all ''```'' (remove_all ''```svg'' (remove_all ''```xml'' svg0)))
           in if \<not> includes_str svg ''<svg'' then (Inr None, []) else (Inr (Some svg), []))
      | Inl e \<Rightarrow> (Inl e, []))"

subsection \<open>Speech synthesis and its cache\<close>

text \<open>
  The cache is a map from keys to payloads. The state also lists the requests sent to the
  backend, in order, and the console lines. A text that is \<open>undefined\<close> at run time
  enters the key as the word \<open>undefined\<close>.

  A call of \<open>generateSpeech\<close> runs in two stretches. The first looks the key up and
  either returns the cached payload or sends the request and awaits the backend. The
  second runs when the backend has answered, with whatever the cache holds by then: other
  calls, for the same key too, may have run in between.
\<close>

record SpeechState =
  audioCache :: "string \<rightharpoonup> string"
  issued :: "request list"
  speechConsole :: "string list"

definition cacheKey :: "string option \<Rightarrow> string \<Rightarrow> string" where
  "cacheKey txt voiceName = interp txt @ ''-'' @ voiceName"

definition base64Audio_of :: "Response \<Rightarrow> string option" where
  "base64Audio_of response =
     (case resp_part0 response of
        None \<Rightarrow> None
      | Some part \<Rightarrow> (case inlineData part of None \<Rightarrow> None | Some d \<Rightarrow> inline_data d))"

datatype speech_progress = Done "error + string option" | Awaiting request

text \<open>From the call to the cache hit or to the await of the backend.\<close>

definition generateSpeech_begin ::
  "string option \<Rightarrow> string \<Rightarrow> SpeechState \<Rightarrow> speech_progress \<times> SpeechState" where
  "generateSpeech_begin txt voiceName s =
     (case audioCache s (cacheKey txt voiceName) of
        Some cached \<Rightarrow> (Done (Inr (Some cached)), s)
      | None \<Rightarrow>
          (Awaiting (SpeechReq txt voiceName),
           s\<lparr>issued := issued s @ [SpeechReq txt voiceName]\<rparr>))"

text \<open>From the answer of the backend to the return of the call.\<close>

definition generateSpeech_resume ::
  "error + Response \<Rightarrow> string option \<Rightarrow> string \<Rightarrow> SpeechState
     \<Rightarrow> (error + string option) \<times> SpeechState" where
  "generateSpeech_resume answer txt voiceName s =
     (case answer of
        Inr response \<Rightarrow>
          (case base64Audio_of response of
             None \<Rightarrow> (Inr None, s)
           | Some base64Audio \<Rightarrow>
               if truthy base64Audio
               then (Inr (Some base64Audio),
                     s\<lparr>audioCache := (audioCache s)(cacheKey txt voiceName \<mapsto> base64Audio)\<rparr>)
               else (Inr None, s))
      | Inl e \<Rightarrow> (Inr None, s\<lparr>speechConsole := speechConsole s @ [''TTS failed'']\<rparr>))"

text \<open>A call during whose await nothing else runs: the two stretches back to back.\<close>

definition generateSpeech ::
  "backend \<Rightarrow> string option \<Rightarrow> string \<Rightarrow> SpeechState \<Rightarrow> (error + string option) \<times> SpeechState" where
  "generateSpeech be txt voiceName s =
     (case generateSpeech_begin txt voiceName s of
        (Done r, s1) \<Rightarrow> (r, s1)
      | (Awaiting req, s1) \<Rightarrow> generateSpeech_resume (be req) txt voiceName s1)"

text \<open>
  Calls that overlap: each event is the first stretch of a call or the second stretch of
  a call begun earlier, with the text and voice of that call and the answer it got.
\<close>

datatype speech_event =
    Begin "string option" string
  | Resume "string option" string "error + Response"

fun speech_step :: "SpeechState \<Rightarrow> speech_event \<Rightarrow> SpeechState" where
  "speech_step s (Begin txt voiceName) = snd (generateSpeech_begin txt voiceName s)"
| "speech_step s (Resume txt voiceName answer) = snd (generateSpeech_resume answer txt voiceName s)"

definition speech_events :: "speech_event list \<Rightarrow> SpeechState \<Rightarrow> SpeechState" where
  "speech_events evs s = foldl speech_step s evs"

definition speech_init :: SpeechState where
  "speech_init = \<lparr>audioCache = Map.empty, issued = [], speechConsole = []\<rparr>"

definition audio_response :: "string \<Rightarrow> Response" where
  "audio_response payload =
     \<lparr>resp_text = None,
      resp_part0 = Some \<lparr>inlineData = Some \<lparr>inline_data = Some payload\<rparr>\<rparr>\<rparr>"

section \<open>The exploration view (ExploreView)\<close>

text \<open>
  The component state is a record of its state variables. Around it, the world holds the
  playback state of the audio module, the calls that the component starts without
  awaiting them, and the console lines of the component. An asynchronous handler is given
  as the list of worlds it passes through: one entry for each stretch of code that runs
  without interruption, the last entry being the world when the handler has returned.
\<close>

record ChatMessage =
  role :: Role
  msg_text :: string

datatype task =
    SpeechTask "string option" string
  | VisualTask VisualType string "string option" "string option"

record ExploreState =
  inputText :: string
  isSearching :: bool
  result :: "TranslationResult option"
  visualType :: VisualType
  visualContent :: "string option"
  isGeneratingVisual :: bool
  hasAddedToFlashcards :: bool
  activeAudioId :: "string option"
  loadingAudioId :: "string option"
  useAltVoice :: bool
  isChatOpen :: bool
  chatMessages :: "ChatMessage list"
  chatInput :: string
  isChatLoading :: bool

record world =
  ui :: ExploreState
  audio :: AudioState
  spawned :: "task list"
  console :: "string list"

definition getVoiceForLang :: "LanguageOption \<Rightarrow> LanguageOption \<Rightarrow> bool \<Rightarrow> string \<Rightarrow> string" where
  "getVoiceForLang sourceLang targetLang alt langCode =
     (case find (\<lambda>l. code l = langCode) [sourceLang, targetLang] of
        Some langOption \<Rightarrow>
          if langCode = ''en''
          then (if alt \<and> truthy_opt (altVoice langOption)
                then interp (altVoice langOption) else defaultVoice langOption)
          else defaultVoice langOption
      | None \<Rightarrow> ''Puck'')"

subsection \<open>handleSearch\<close>

definition skeleton :: TranslationResult where
  "skeleton = \<lparr>r_definition = Some [], r_story = Some [], r_translation = Some [],
               r_definitionTranslation = Some [], r_storyTranslation = Some []\<rparr>"

text \<open>Up to the first await: the loading state and the empty result.\<close>

definition search_begin :: "world \<Rightarrow> world" where
  "search_begin w =
     w\<lparr>ui := (ui w)\<lparr>isSearching := True, hasAddedToFlashcards := False, chatMessages := [],
                     activeAudioId := None, loadingAudioId := None, visualContent := None,
                     result := Some skeleton\<rparr>,
       audio := stopAudio (audio w)\<rparr>"

text \<open>\<open>{ ...prev!, translation: simpleTranslation }\<close>\<close>

definition merge_translation :: "string \<Rightarrow> TranslationResult option \<Rightarrow> TranslationResult" where
  "merge_translation simpleTranslation prev =
     (case prev of
        None \<Rightarrow> \<lparr>r_definition = None, r_story = None, r_translation = Some simpleTranslation,
                 r_definitionTranslation = None, r_storyTranslation = None\<rparr>
      | Some r \<Rightarrow> r\<lparr>r_translation := Some simpleTranslation\<rparr>)"

text \<open>
  After the fast translation has arrived, up to the await of the rich context. The text
  \<open>txt\<close> and the voice choice \<open>alt\<close> are those of the render in which the handler
  was called; the result is updated from the one shown at this moment.
\<close>

definition search_translated ::
  "LanguageOption \<Rightarrow> LanguageOption \<Rightarrow> bool \<Rightarrow> string \<Rightarrow> string \<Rightarrow> world \<Rightarrow> world" where
  "search_translated sourceLang targetLang alt txt simpleTranslation w =
     (let voiceSource = getVoiceForLang sourceLang targetLang alt (code sourceLang);
          voiceTarget = getVoiceForLang sourceLang targetLang alt (code targetLang)
      in w\<lparr>ui := (ui w)\<lparr>result := Some (merge_translation simpleTranslation (result (ui w)))\<rparr>,
           spawned := spawned w @ [SpeechTask (Some txt) voiceSource]
                        @ (if truthy simpleTranslation
                           then [SpeechTask (Some simpleTranslation) voiceTarget] else [])\<rparr>)"

text \<open>
  After the rich context has arrived. The call of \<open>handleGenerateVisual\<close> is not
  awaited: what it does before its own await happens here, the rest is a spawned task.
\<close>

definition handleGenerateVisual_begin :: "VisualType \<Rightarrow> ExploreState \<Rightarrow> ExploreState" where
  "handleGenerateVisual_begin ty st =
     st\<lparr>visualType := ty, isGeneratingVisual := True, visualContent := None\<rparr>"

definition search_enriched ::
  "LanguageOption \<Rightarrow> LanguageOption \<Rightarrow> bool \<Rightarrow> string \<Rightarrow> string \<Rightarrow> js_object \<Rightarrow> world
     \<Rightarrow> world" where
  "search_enriched sourceLang targetLang alt txt simpleTranslation richData w =
     (let voiceSource = getVoiceForLang sourceLang targetLang alt (code sourceLang);
          full = \<lparr>r_definition = richData ''definition'',
                  r_story = richData ''story'',
                  r_translation = js_or (Some simpleTranslation) (richData ''translation''),
                  r_definitionTranslation = richData ''definitionTranslation'',
                  r_storyTranslation = richData ''storyTranslation''\<rparr>
      in w\<lparr>ui := handleGenerateVisual_begin Image ((ui w)\<lparr>result := Some full\<rparr>),
           spawned := spawned w
             @ [VisualTask Image txt (richData ''definition'') (richData ''story''),
                SpeechTask (richData ''definition'') voiceSource,
                SpeechTask (richData ''story'') voiceSource]\<rparr>)"

definition search_failed :: "world \<Rightarrow> world" where
  "search_failed w = w\<lparr>console := console w @ [''Translation flow failed'']\<rparr>"

definition search_finally :: "world \<Rightarrow> world" where
  "search_finally w = w\<lparr>ui := (ui w)\<lparr>isSearching := False\<rparr>\<rparr>"

definition log_lines :: "string list \<Rightarrow> world \<Rightarrow> world" where
  "log_lines ls w = w\<lparr>console := console w @ ls\<rparr>"

text \<open>
  The stretches of code of the handler: from the call to the first await, from the
  arrival of the fast translation to the second await, from the arrival of the rich
  context to the return. Each applies to the world as it is when the stretch starts.
\<close>

definition search_submit :: "world \<Rightarrow> world" where
  "search_submit w = (if \<not> truthy (trim (inputText (ui w))) then w else search_begin w)"

definition search_on_translation ::
  "LanguageOption \<Rightarrow> LanguageOption \<Rightarrow> bool \<Rightarrow> string \<Rightarrow> (error + string) \<times> string list
     \<Rightarrow> world \<Rightarrow> world" where
  "search_on_translation sourceLang targetLang alt txt outcome w =
     (case outcome of
        (Inl e, log1) \<Rightarrow> search_finally (search_failed (log_lines log1 w))
      | (Inr simpleTranslation, log1) \<Rightarrow>
          search_translated sourceLang targetLang alt txt simpleTranslation (log_lines log1 w))"

definition search_on_rich ::
  "LanguageOption \<Rightarrow> LanguageOption \<Rightarrow> bool \<Rightarrow> string \<Rightarrow> string
     \<Rightarrow> (error + js_object) \<times> string list \<Rightarrow> world \<Rightarrow> world" where
  "search_on_rich sourceLang targetLang alt txt simpleTranslation outcome w =
     (case outcome of
        (Inl e, log2) \<Rightarrow> search_finally (search_failed (log_lines log2 w))
      | (Inr richData, log2) \<Rightarrow>
          search_finally
            (search_enriched sourceLang targetLang alt txt simpleTranslation richData
               (log_lines log2 w)))"

text \<open>One call of the handler during whose awaits nothing else runs.\<close>

definition handleSearch ::
  "json_parse \<Rightarrow> backend \<Rightarrow> LanguageOption \<Rightarrow> LanguageOption \<Rightarrow> world \<Rightarrow> world list" where
  "handleSearch parse be sourceLang targetLang w =
     (let txt = inputText (ui w); alt = useAltVoice (ui w) in
      if \<not> truthy (trim txt) then [w]
      else
        let w1 = search_begin w;
            (translated, log1) = translateTextSimple be txt (label targetLang)
        in (case translated of
              Inl e \<Rightarrow> [w1, search_finally (search_failed (log_lines log1 w1))]
            | Inr simpleTranslation \<Rightarrow>
                (let w2 = search_translated sourceLang targetLang alt txt simpleTranslation
                            (log_lines log1 w1);
                     (rich, log2) = getRichContext parse be txt (label sourceLang) (label targetLang)
                 in (case rich of
                       Inl e \<Rightarrow> [w1, w2, search_finally (search_failed (log_lines log2 w2))]
                     | Inr richData \<Rightarrow>
                         [w1, w2,
                          search_finally
                            (search_enriched sourceLang targetLang alt txt simpleTranslation
                               richData (log_lines log2 w2))]))))"

text \<open>
  Calls of the handler that overlap. The search button is disabled while a search runs,
  the Enter key in the input field calls the handler all the same, so a second call can
  start during the awaits of the first. An event is the start of a call, or the arrival
  of the fast translation or of the rich context for a call started earlier, with the
  text and voice choice that call holds. The trace lists the world after each event.
\<close>

datatype search_event =
    Submit
  | TranslationArrives bool string "(error + string) \<times> string list"
  | RichArrives bool string string "(error + js_object) \<times> string list"

fun search_step :: "LanguageOption \<Rightarrow> LanguageOption \<Rightarrow> world \<Rightarrow> search_event \<Rightarrow> world" where
  "search_step sourceLang targetLang w Submit = search_submit w"
| "search_step sourceLang targetLang w (TranslationArrives alt txt outcome) =
     search_on_translation sourceLang targetLang alt txt outcome w"
| "search_step sourceLang targetLang w (RichArrives alt txt simpleTranslation outcome) =
     search_on_rich sourceLang targetLang alt txt simpleTranslation outcome w"

fun search_trace ::
  "LanguageOption \<Rightarrow> LanguageOption \<Rightarrow> world \<Rightarrow> search_event list \<Rightarrow> world list" where
  "search_trace sourceLang targetLang w [] = []"
| "search_trace sourceLang targetLang w (ev # evs) =
     search_step sourceLang targetLang w ev
       # search_trace sourceLang targetLang (search_step sourceLang targetLang w ev) evs"

text \<open>The results shown in a list of worlds, in order.\<close>

definition results_shown :: "world list \<Rightarrow> TranslationResult option list" where
  "results_shown ws = map (\<lambda>w. result (ui w)) ws"

definition field_of :: "(TranslationResult \<Rightarrow> string option) \<Rightarrow> TranslationResult option \<Rightarrow> string option" where
  "field_of get r = (case r of None \<Rightarrow> None | Some x \<Rightarrow> get x)"

definition result_fields :: "(TranslationResult \<Rightarrow> string option) list" where
  "result_fields = [r_definition, r_story, r_translation, r_definitionTranslation, r_storyTranslation]"

text \<open>No field that is non-empty in \<open>a\<close> is empty or absent in \<open>b\<close>.\<close>

definition keeps_fields :: "TranslationResult option \<Rightarrow> TranslationResult option \<Rightarrow> bool" where
  "keeps_fields a b =
     list_all (\<lambda>get. truthy_opt (field_of get a) \<longrightarrow> truthy_opt (field_of get b)) result_fields"

subsection \<open>handleGenerateVisual\<close>

definition handleGenerateVisual ::
  "backend \<Rightarrow> VisualType \<Rightarrow> string \<Rightarrow> string option \<Rightarrow> string option \<Rightarrow> world \<Rightarrow> world list" where
  "handleGenerateVisual be ty inputTxt definitionTxt storyTxt w =
     (let w1 = w\<lparr>ui := handleGenerateVisual_begin ty (ui w)\<rparr>;
          (content, logs) =
            (case ty of
               Image \<Rightarrow> generateVisualImage be inputTxt definitionTxt storyTxt
             | SVG \<Rightarrow> generateVisualSvg be inputTxt definitionTxt storyTxt
             | Video \<Rightarrow> (Inr None, []));
          w2 = log_lines logs w1;
          w3 = (case content of
                  Inr c \<Rightarrow> if truthy_opt c then w2\<lparr>ui := (ui w2)\<lparr>visualContent := c\<rparr>\<rparr> else w2
                | Inl e \<Rightarrow> log_lines [''Visual gen failed''] w2)
      in [w1, w3\<lparr>ui := (ui w3)\<lparr>isGeneratingVisual := False\<rparr>\<rparr>])"

subsection \<open>handleSendMessage\<close>

definition chat_context :: "string \<Rightarrow> TranslationResult \<Rightarrow> string" where
  "chat_context txt r =
     ''Word: '' @ txt @ ''. Definition: '' @ interp (r_definition r) @ ''. Story: ''
       @ interp (r_story r)"

definition handleSendMessage :: "backend \<Rightarrow> world \<Rightarrow> world list" where
  "handleSendMessage be w =
     (case result (ui w) of
        None \<Rightarrow> [w]
      | Some r \<Rightarrow>
          if \<not> truthy (trim (chatInput (ui w))) then [w]
          else
            let userMsg = chatInput (ui w);
                w1 = w\<lparr>ui := (ui w)\<lparr>chatInput := [],
                             chatMessages := chatMessages (ui w) @ [\<lparr>role = User, msg_text = userMsg\<rparr>],
                             isChatLoading := True\<rparr>\<rparr>;
                context = chat_context (inputText (ui w)) r;
                apiHistory = map (\<lambda>m. (role m, msg_text m)) (chatMessages (ui w));
                (reply, logs) = chatWithAI be userMsg context apiHistory;
                w2 = log_lines logs w1;
                w3 = (case reply of
                        Inr aiResponseText \<Rightarrow>
                          w2\<lparr>ui := (ui w2)\<lparr>chatMessages := chatMessages (ui w2)
                                         @ [\<lparr>role = Model, msg_text = aiResponseText\<rparr>]\<rparr>\<rparr>
                      | Inl e \<Rightarrow> log_lines [''Chat failed''] w2)
            in [w1, w3\<lparr>ui := (ui w3)\<lparr>isChatLoading := False\<rparr>\<rparr>])"

subsection \<open>handleAddToFlashcards and its button\<close>







subsection \<open>Sample values\<close>

definition english :: LanguageOption where
  "english = \<lparr>code = ''en'', label = ''English'', defaultVoice = ''Fenrir'', altVoice = Some ''Puck''\<rparr>"

definition spanish :: LanguageOption where
  "spanish = \<lparr>code = ''es'', label = ''Spanish'', defaultVoice = ''Fenrir'', altVoice = None\<rparr>"

definition explore_init :: ExploreState where
  "explore_init =
     \<lparr>inputText = [], isSearching = False, result = None, visualType = Image,
      visualContent = None, isGeneratingVisual = False, hasAddedToFlashcards = False,
      activeAudioId = None, loadingAudioId = None, useAltVoice = False, isChatOpen = False,
      chatMessages = [], chatInput = [], isChatLoading = False\<rparr>"

definition world_init :: "string \<Rightarrow> world" where
  "world_init txt =
     \<lparr>ui = explore_init\<lparr>inputText := txt\<rparr>, audio = audio_init, spawned = [], console = []\<rparr>"

definition text_response :: "string option \<Rightarrow> Response" where
  "text_response t = \<lparr>resp_text = t, resp_part0 = None\<rparr>"

section \<open>Auxiliary notions for the properties\<close>

text \<open>
  Two strings that differ at most by letter case, said without \<open>toLowerCase\<close>: they
  have the same length and at each position the same code unit, or a capital letter in
  one and its small letter, 32 code units further, in the other.
\<close>

definition capital_of :: "char \<Rightarrow> char \<Rightarrow> bool" where
  "capital_of u l =
     (let m = (of_char u :: nat); n = (of_char l :: nat)
      in n = m + 32 \<and> (m \<in> {65..90} \<or> m \<in> {192..214} \<or> m \<in> {216..222}))"

definition same_letter :: "char \<Rightarrow> char \<Rightarrow> bool" where
  "same_letter c d = (c = d \<or> capital_of c d \<or> capital_of d c)"

definition equal_ignoring_case :: "string \<Rightarrow> string \<Rightarrow> bool" where
  "equal_ignoring_case a b = list_all2 same_letter a b"

text \<open>
  The value of two bytes read as a signed 16-bit little-endian number, written with
  arithmetic only: the specification side of the PCM decoding.
\<close>

definition int16_le :: "8 word \<Rightarrow> 8 word \<Rightarrow> int" where
  "int16_le lo hi =
     (let u = int (unat lo) + 256 * int (unat hi) in if u < 32768 then u else u - 65536)"

text \<open>
  Sample collaborators: \<open>atob\<close> and \<open>JSON.parse\<close> at the one argument used
  (\<open>AAA=\<close> is the base64 form of two zero bytes, \<open>{}\<close> the empty object), and
  backends that always fail, that translate only, and that answer the rich-context call
  without text.
\<close>

definition atob_sample :: "string \<Rightarrow> error + string" where
  "atob_sample s = (if s = ''AAA='' then Inr [CHR 0x00, CHR 0x00] else Inl InvalidCharacterError)"

definition parse_sample :: json_parse where
  "parse_sample s = (if s = ''{}'' then Inr Map.empty else Inl SyntaxError)"

definition failing_backend :: backend where
  "failing_backend req = Inl BackendError"

definition translating_backend :: backend where
  "translating_backend req =
     (case req of
        TranslateReq t l \<Rightarrow> Inr (text_response (Some '' hola ''))
      | _ \<Rightarrow> Inl BackendError)"

definition textless_backend :: backend where
  "textless_backend req =
     (case req of
        TranslateReq t l \<Rightarrow> Inr (text_response (Some '' hola ''))
      | RichContextReq t a b \<Rightarrow> Inr (text_response None)
      | _ \<Rightarrow> Inl BackendError)"

text \<open>
  Two searches for \<open>hello\<close> that overlap: Enter is pressed twice before any answer;
  the fast translation of the first call arrives, then that of the second call, which
  the backend has failed.
\<close>

definition overlapping_searches :: "search_event list" where
  "overlapping_searches =
     [Submit, Submit,
      TranslationArrives False ''hello'' (translateTextSimple translating_backend ''hello'' ''Spanish''),
      TranslationArrives False ''hello'' (translateTextSimple failing_backend ''hello'' ''Spanish'')]"

text \<open>
  Two syntheses of \<open>hello\<close> in one voice that overlap: both calls start before either
  answer, then the answers arrive, with different payloads.
\<close>

definition overlapping_syntheses :: "speech_event list" where
  "overlapping_syntheses =
     [Begin (Some ''hello'') ''Fenrir'', Begin (Some ''hello'') ''Fenrir'',
      Resume (Some ''hello'') ''Fenrir'' (Inr (audio_response ''UEE='')),
      Resume (Some ''hello'') ''Fenrir'' (Inr (audio_response ''UEI=''))]"

text \<open>A world with a result and a question typed into the chat.\<close>

definition chat_world :: world where
  "chat_world =
     (world_init ''hello'')\<lparr>ui := (ui (world_init ''hello''))\<lparr>result := Some skeleton,
                                                            chatInput := ''why?''\<rparr>\<rparr>"


text \<open>The buffer decoded from two zero bytes: one sample of silence.\<close>

definition silence :: AudioBuffer where
  "silence = \<lparr>sampleRate = 24000, numberOfChannels = 1, channelData = [[0]]\<rparr>"

text \<open>
  The bookkeeping of \<open>onEnded\<close> callbacks: no call number has been recorded twice,
  every recorded number and every owner of a node is the number of a call already made,
  no two nodes have the same owner, and the owner of a node that has not yet received its
  \<open>ended\<close> event has not been recorded.
\<close>

definition callbacks_ok :: "AudioState \<Rightarrow> bool" where
  "callbacks_ok st =
     (distinct (endedCalls st)
      \<and> (\<forall>k \<in> set (endedCalls st). k < calls st)
      \<and> (\<forall>j < length (nodes st). owner (nodes st ! j) < calls st)
      \<and> distinct (map owner (nodes st))
      \<and> (\<forall>j < length (nodes st).
            status (nodes st ! j) \<noteq> Finished \<longrightarrow> owner (nodes st ! j) \<notin> set (endedCalls st)))"

section \<open>Properties of the flashcard store\<close>

lemma find_None_iff_same_source:
  "(find (same_source newCard) cards = None) = (\<forall>f \<in> set cards. \<not> same_source newCard f)"
  by (auto simp: find_None_iff)

subsection \<open>What \<open>toLowerCase\<close> identifies\<close>

lemma code_toLowerCase_char:
  "(of_char (toLowerCase_char c) :: nat) =
     (if (65 \<le> (of_char c :: nat) \<and> (of_char c :: nat) \<le> 90)
         \<or> (192 \<le> (of_char c :: nat) \<and> (of_char c :: nat) \<le> 222 \<and> (of_char c :: nat) \<noteq> 215)
      then of_char c + 32 else of_char c)"
  by (simp add: toLowerCase_char_def Let_def)

lemma toLowerCase_char_eq_iff:
  "(toLowerCase_char c = toLowerCase_char d) = same_letter c d"
proof -
  have l: "(toLowerCase_char c = toLowerCase_char d)
      = ((of_char (toLowerCase_char c) :: nat) = of_char (toLowerCase_char d))"
    by simp
  have e: "(c = d) = ((of_char c :: nat) = of_char d)"
    by simp
  show ?thesis
    unfolding same_letter_def capital_of_def Let_def l e code_toLowerCase_char
    by auto
qed

lemma toLowerCase_eq_iff: "(toLowerCase a = toLowerCase b) = equal_ignoring_case a b"
  unfolding toLowerCase_def equal_ignoring_case_def
  by (auto simp: list_eq_iff_nth_eq list_all2_conv_all_nth toLowerCase_char_eq_iff)

lemma same_source_iff:
  "same_source newCard f = equal_ignoring_case (sourceText f) (sourceText newCard)"
  by (simp add: same_source_def toLowerCase_eq_iff)

subsection \<open>Deduplication and order\<close>

text \<open>
  Claim C5. Adding a card is a no-op when some stored card has a source text that differs
  from the new card's at most by letter case, and otherwise puts the new card in front of
  the collection; so adding two cards whose source texts differ only by case, to a
  collection holding no such card, stores the first one only, and leaves exactly one card
  with that source text up to case.
\<close>

theorem addFlashcard_dedup_prepend:
  "((\<exists>f \<in> set cards. equal_ignoring_case (sourceText f) (sourceText newCard))
      \<longrightarrow> addFlashcard newCard cards = cards)
   \<and> ((\<forall>f \<in> set cards. \<not> equal_ignoring_case (sourceText f) (sourceText newCard))
      \<longrightarrow> addFlashcard newCard cards = newCard # cards)
   \<and> ((\<forall>f \<in> set cards. \<not> equal_ignoring_case (sourceText f) (sourceText newCard))
       \<and> equal_ignoring_case (sourceText card2) (sourceText newCard)
      \<longrightarrow> addFlashcard card2 (addFlashcard newCard cards) = newCard # cards
          \<and> length (filter (\<lambda>f. equal_ignoring_case (sourceText f) (sourceText newCard))
                (addFlashcard card2 (addFlashcard newCard cards))) = 1)"
proof (intro conjI impI)
  assume "\<exists>f \<in> set cards. equal_ignoring_case (sourceText f) (sourceText newCard)"
  then have "find (same_source newCard) cards \<noteq> None"
    by (simp add: find_None_iff_same_source same_source_iff)
  then show "addFlashcard newCard cards = cards"
    by (simp add: addFlashcard_def)
next
  assume "\<forall>f \<in> set cards. \<not> equal_ignoring_case (sourceText f) (sourceText newCard)"
  then have "find (same_source newCard) cards = None"
    by (simp add: find_None_iff_same_source same_source_iff)
  then show "addFlashcard newCard cards = newCard # cards"
    by (simp add: addFlashcard_def)
next
  assume h: "(\<forall>f \<in> set cards. \<not> equal_ignoring_case (sourceText f) (sourceText newCard))
       \<and> equal_ignoring_case (sourceText card2) (sourceText newCard)"
  then have none: "find (same_source newCard) cards = None"
    by (simp add: find_None_iff_same_source same_source_iff)
  then have first: "addFlashcard newCard cards = newCard # cards"
    by (simp add: addFlashcard_def)
  have "toLowerCase (sourceText card2) = toLowerCase (sourceText newCard)"
    using h by (simp add: toLowerCase_eq_iff)
  then have "same_source card2 newCard"
    by (simp add: same_source_def)
  then show second: "addFlashcard card2 (addFlashcard newCard cards) = newCard # cards"
    unfolding first by (simp add: addFlashcard_def)
  have self: "equal_ignoring_case (sourceText newCard) (sourceText newCard)"
    by (simp add: toLowerCase_eq_iff [symmetric])
  have "filter (\<lambda>f. equal_ignoring_case (sourceText f) (sourceText newCard)) cards = []"
    using h by (simp add: filter_empty_conv)
  then show "length (filter (\<lambda>f. equal_ignoring_case (sourceText f) (sourceText newCard))
      (addFlashcard card2 (addFlashcard newCard cards))) = 1"
    by (simp add: second self)
qed

text \<open>
  The theorem at \<open>Hello\<close> then \<open>HELLO\<close>, and at \<open>CAFE\<close> then \<open>cafe\<close>
  written with an accented last letter (code units 201 and 233), each pair leaving one
  card; and at two source texts that differ by more than case, which are both stored, the
  later in front.
\<close>

theorem addFlashcard_dedup_prepend_witness:
  "equal_ignoring_case ''HELLO'' ''Hello''
   \<and> addFlashcard (demo_card ''2'' ''HELLO'') (addFlashcard (demo_card ''1'' ''Hello'') [])
       = [demo_card ''1'' ''Hello'']
   \<and> equal_ignoring_case (''caf'' @ [CHR 0xE9]) (''CAF'' @ [CHR 0xC9])
   \<and> addFlashcard (demo_card ''4'' (''caf'' @ [CHR 0xE9]))
        (addFlashcard (demo_card ''3'' (''CAF'' @ [CHR 0xC9])) [demo_card ''1'' ''Hello''])
       = [demo_card ''3'' (''CAF'' @ [CHR 0xC9]), demo_card ''1'' ''Hello'']
   \<and> \<not> equal_ignoring_case ''Hello'' ''Help!''
   \<and> addFlashcard (demo_card ''5'' ''Help!'') [demo_card ''1'' ''Hello'']
       = [demo_card ''5'' ''Help!'', demo_card ''1'' ''Hello'']
   \<and> addFlashcard (demo_card ''6'' ''hELLO'') [demo_card ''5'' ''Help!'', demo_card ''1'' ''Hello'']
       = [demo_card ''5'' ''Help!'', demo_card ''1'' ''Hello'']"
proof -
  let ?hello = "demo_card ''1'' ''Hello''" and ?HELLO = "demo_card ''2'' ''HELLO''"
  let ?CAFE = "demo_card ''3'' (''CAF'' @ [CHR 0xC9])"
  let ?cafe = "demo_card ''4'' (''caf'' @ [CHR 0xE9])"
  let ?other = "demo_card ''5'' ''Help!''" and ?hELLO = "demo_card ''6'' ''hELLO''"
  have src: "sourceText (demo_card i t) = t" for i t
    by (simp add: demo_card_def)
  have e1: "equal_ignoring_case ''HELLO'' ''Hello''"
    by code_simp
  have e2: "equal_ignoring_case (''caf'' @ [CHR 0xE9]) (''CAF'' @ [CHR 0xC9])"
    by code_simp
  have n1: "\<not> equal_ignoring_case ''Hello'' (''CAF'' @ [CHR 0xC9])"
    by code_simp
  have n2: "\<not> equal_ignoring_case ''Hello'' ''Help!''"
    by code_simp
  have e3: "equal_ignoring_case ''Hello'' ''hELLO''"
    by code_simp
  have a: "addFlashcard ?HELLO (addFlashcard ?hello []) = [?hello]"
    using addFlashcard_dedup_prepend [of "[]" ?hello ?HELLO] e1 by (auto simp: src)
  have b: "addFlashcard ?cafe (addFlashcard ?CAFE [?hello]) = [?CAFE, ?hello]"
    using addFlashcard_dedup_prepend [of "[?hello]" ?CAFE ?cafe] e2 n1 by (auto simp: src)
  have c: "addFlashcard ?other [?hello] = [?other, ?hello]"
    using addFlashcard_dedup_prepend [of "[?hello]" ?other ?other] n2 by (auto simp: src)
  have d: "addFlashcard ?hELLO [?other, ?hello] = [?other, ?hello]"
    using addFlashcard_dedup_prepend [of "[?other, ?hello]" ?hELLO ?hELLO] e3 by (auto simp: src)
  show ?thesis
    using e1 e2 n2 a b c d by simp
qed

section \<open>Properties of the speech cache\<close>

lemma generateSpeech_begin_hit:
  "audioCache s (cacheKey txt voiceName) = Some payload \<Longrightarrow>
   generateSpeech_begin txt voiceName s = (Done (Inr (Some payload)), s)"
  by (simp add: generateSpeech_begin_def)

lemma generateSpeech_begin_miss:
  "audioCache s (cacheKey txt voiceName) = None \<Longrightarrow>
   generateSpeech_begin txt voiceName s =
     (Awaiting (SpeechReq txt voiceName), s\<lparr>issued := issued s @ [SpeechReq txt voiceName]\<rparr>)"
  by (simp add: generateSpeech_begin_def)

lemma generateSpeech_resume_success:
  "base64Audio_of response = Some payload \<Longrightarrow> payload \<noteq> [] \<Longrightarrow>
   generateSpeech_resume (Inr response) txt voiceName s =
     (Inr (Some payload), s\<lparr>audioCache := (audioCache s)(cacheKey txt voiceName \<mapsto> payload)\<rparr>)"
  by (simp add: generateSpeech_resume_def truthy_def)

lemma generateSpeech_hit:
  "audioCache s (cacheKey txt voiceName) = Some payload \<Longrightarrow>
   generateSpeech be txt voiceName s = (Inr (Some payload), s)"
  by (simp add: generateSpeech_def generateSpeech_begin_hit)

lemma generateSpeech_miss_success:
  assumes "audioCache s (cacheKey txt voiceName) = None"
    and "be (SpeechReq txt voiceName) = Inr response"
    and "base64Audio_of response = Some payload"
    and "payload \<noteq> []"
  shows "generateSpeech be txt voiceName s =
     (Inr (Some payload),
      s\<lparr>issued := issued s @ [SpeechReq txt voiceName],
        audioCache := (audioCache s)(cacheKey txt voiceName \<mapsto> payload)\<rparr>)"
  using assms
  by (simp add: generateSpeech_def generateSpeech_begin_miss generateSpeech_resume_success)

lemma speech_step_keeps_keys:
  "audioCache s k \<noteq> None \<Longrightarrow> audioCache (speech_step s ev) k \<noteq> None"
  by (cases ev)
    (auto simp: generateSpeech_begin_def generateSpeech_resume_def
      split: option.splits sum.splits if_splits)

lemma speech_events_keep_keys:
  "audioCache s k \<noteq> None \<Longrightarrow> audioCache (speech_events evs s) k \<noteq> None"
proof (induction evs arbitrary: s)
  case Nil
  then show ?case by (simp add: speech_events_def)
next
  case (Cons ev evs)
  have "audioCache (speech_step s ev) k \<noteq> None"
    using Cons.prems by (rule speech_step_keeps_keys)
  then have "audioCache (speech_events evs (speech_step s ev)) k \<noteq> None"
    by (rule Cons.IH)
  then show ?case by (simp add: speech_events_def)
qed

text \<open>
  Claim C3, as amended. When the key of a text and voice is in the cache, a call returns
  the payload stored under the key at that moment, sends no request and leaves the state
  as it was; when the key is not in the cache, the call sends one request and awaits.
  When the backend answers with a non-empty payload, the payload is stored under the key
  and returned. No step of any call removes a key, so once a key is in the cache every
  later call with that key, whatever calls and answers come in between, is a hit that
  returns the payload then stored.
\<close>

theorem speech_cache_hits:
  "(audioCache s (cacheKey txt voiceName) = Some payload
      \<longrightarrow> generateSpeech_begin txt voiceName s = (Done (Inr (Some payload)), s)
          \<and> (\<forall>be. generateSpeech be txt voiceName s = (Inr (Some payload), s)))
   \<and> (audioCache s (cacheKey txt voiceName) = None
      \<longrightarrow> generateSpeech_begin txt voiceName s =
            (Awaiting (SpeechReq txt voiceName),
             s\<lparr>issued := issued s @ [SpeechReq txt voiceName]\<rparr>))
   \<and> (base64Audio_of response = Some payload \<and> payload \<noteq> []
      \<longrightarrow> generateSpeech_resume (Inr response) txt voiceName s =
            (Inr (Some payload),
             s\<lparr>audioCache := (audioCache s)(cacheKey txt voiceName \<mapsto> payload)\<rparr>))
   \<and> (audioCache s (cacheKey txt voiceName) \<noteq> None
      \<longrightarrow> (\<exists>stored. audioCache (speech_events evs s) (cacheKey txt voiceName) = Some stored
             \<and> generateSpeech_begin txt voiceName (speech_events evs s)
                 = (Done (Inr (Some stored)), speech_events evs s)))"
proof (intro conjI impI allI)
  assume hit: "audioCache s (cacheKey txt voiceName) = Some payload"
  then show "generateSpeech_begin txt voiceName s = (Done (Inr (Some payload)), s)"
    by (rule generateSpeech_begin_hit)
  from hit show "generateSpeech be txt voiceName s = (Inr (Some payload), s)" for be
    by (rule generateSpeech_hit)
next
  assume "audioCache s (cacheKey txt voiceName) = None"
  then show "generateSpeech_begin txt voiceName s =
      (Awaiting (SpeechReq txt voiceName), s\<lparr>issued := issued s @ [SpeechReq txt voiceName]\<rparr>)"
    by (rule generateSpeech_begin_miss)
next
  assume "base64Audio_of response = Some payload \<and> payload \<noteq> []"
  then show "generateSpeech_resume (Inr response) txt voiceName s =
      (Inr (Some payload), s\<lparr>audioCache := (audioCache s)(cacheKey txt voiceName \<mapsto> payload)\<rparr>)"
    by (simp add: generateSpeech_resume_success)
next
  assume "audioCache s (cacheKey txt voiceName) \<noteq> None"
  then have "audioCache (speech_events evs s) (cacheKey txt voiceName) \<noteq> None"
    by (rule speech_events_keep_keys)
  then obtain stored where
    st: "audioCache (speech_events evs s) (cacheKey txt voiceName) = Some stored"
    by auto
  then have "generateSpeech_begin txt voiceName (speech_events evs s)
      = (Done (Inr (Some stored)), speech_events evs s)"
    by (rule generateSpeech_begin_hit)
  with st show "\<exists>stored. audioCache (speech_events evs s) (cacheKey txt voiceName) = Some stored
             \<and> generateSpeech_begin txt voiceName (speech_events evs s)
                 = (Done (Inr (Some stored)), speech_events evs s)"
    by blast
qed

lemma overlapping_syntheses_states:
  "speech_events (take 2 overlapping_syntheses) speech_init
     = \<lparr>audioCache = Map.empty,
        issued = [SpeechReq (Some ''hello'') ''Fenrir'', SpeechReq (Some ''hello'') ''Fenrir''],
        speechConsole = []\<rparr>"
  "speech_events (take 3 overlapping_syntheses) speech_init
     = \<lparr>audioCache = [''hello-Fenrir'' \<mapsto> ''UEE=''],
        issued = [SpeechReq (Some ''hello'') ''Fenrir'', SpeechReq (Some ''hello'') ''Fenrir''],
        speechConsole = []\<rparr>"
  "speech_events overlapping_syntheses speech_init
     = \<lparr>audioCache = [''hello-Fenrir'' \<mapsto> ''UEI=''],
        issued = [SpeechReq (Some ''hello'') ''Fenrir'', SpeechReq (Some ''hello'') ''Fenrir''],
        speechConsole = []\<rparr>"
  by (simp_all add: overlapping_syntheses_def speech_events_def speech_init_def
      generateSpeech_begin_def generateSpeech_resume_def cacheKey_def interp_def
      base64Audio_of_def audio_response_def truthy_def)

text \<open>
  Against claim C3 as stated: two calls for one text and voice overlap. Both miss and
  both send a request. After the first answer a call returns the first payload from the
  cache; after the second answer the entry has been overwritten and a call returns the
  second payload: later calls for the pair do not all return what the first synthesis
  stored.
\<close>

theorem speech_cache_overwrite_counterexample:
  "issued (speech_events (take 2 overlapping_syntheses) speech_init)
     = [SpeechReq (Some ''hello'') ''Fenrir'', SpeechReq (Some ''hello'') ''Fenrir'']
   \<and> fst (generateSpeech_begin (Some ''hello'') ''Fenrir''
        (speech_events (take 3 overlapping_syntheses) speech_init)) = Done (Inr (Some ''UEE=''))
   \<and> fst (generateSpeech_begin (Some ''hello'') ''Fenrir''
        (speech_events overlapping_syntheses speech_init)) = Done (Inr (Some ''UEI=''))"
  by (simp add: overlapping_syntheses_states generateSpeech_begin_def cacheKey_def interp_def)

theorem speech_cache_hits_witness:
  "audioCache speech_init (cacheKey (Some ''hello'') ''Fenrir'') = None
   \<and> generateSpeech_begin (Some ''hello'') ''Fenrir'' speech_init
       = (Awaiting (SpeechReq (Some ''hello'') ''Fenrir''),
          speech_init\<lparr>issued := [SpeechReq (Some ''hello'') ''Fenrir'']\<rparr>)
   \<and> base64Audio_of (audio_response ''UEE='') = Some ''UEE=''
   \<and> audioCache (snd (generateSpeech_resume (Inr (audio_response ''UEE='')) (Some ''hello'') ''Fenrir''
        (snd (generateSpeech_begin (Some ''hello'') ''Fenrir'' speech_init))))
        (cacheKey (Some ''hello'') ''Fenrir'') = Some ''UEE=''
   \<and> generateSpeech_begin (Some ''hello'') ''Fenrir''
        (speech_events (take 3 overlapping_syntheses) speech_init)
       = (Done (Inr (Some ''UEE='')), speech_events (take 3 overlapping_syntheses) speech_init)
   \<and> (\<exists>stored. generateSpeech_begin (Some ''hello'') ''Fenrir''
          (speech_events [Resume (Some ''hello'') ''Fenrir'' (Inr (audio_response ''UEI=''))]
             (speech_events (take 3 overlapping_syntheses) speech_init))
        = (Done (Inr (Some stored)),
           speech_events [Resume (Some ''hello'') ''Fenrir'' (Inr (audio_response ''UEI=''))]
             (speech_events (take 3 overlapping_syntheses) speech_init)))"
proof -
  let ?t = "Some ''hello''" and ?v = "''Fenrir''"
  let ?s3 = "speech_events (take 3 overlapping_syntheses) speech_init"
  let ?late = "[Resume (Some ''hello'') ''Fenrir'' (Inr (audio_response ''UEI=''))]"
  have miss: "audioCache speech_init (cacheKey ?t ?v) = None"
    by (simp add: speech_init_def)
  have b64: "base64Audio_of (audio_response ''UEE='') = Some ''UEE=''"
    by (simp add: base64Audio_of_def audio_response_def)
  have present: "audioCache ?s3 (cacheKey ?t ?v) = Some ''UEE=''"
    by (simp add: overlapping_syntheses_states cacheKey_def interp_def)
  from speech_cache_hits [of speech_init ?t ?v "''UEE=''" "audio_response ''UEE=''" "[]"] miss
  have a: "generateSpeech_begin ?t ?v speech_init
      = (Awaiting (SpeechReq ?t ?v), speech_init\<lparr>issued := issued speech_init @ [SpeechReq ?t ?v]\<rparr>)"
    by blast
  have b: "generateSpeech_resume (Inr (audio_response ''UEE='')) ?t ?v s
      = (Inr (Some ''UEE=''), s\<lparr>audioCache := (audioCache s)(cacheKey ?t ?v \<mapsto> ''UEE='')\<rparr>)" for s
    using speech_cache_hits [of s ?t ?v "''UEE=''" "audio_response ''UEE=''" "[]"] b64
    by blast
  from speech_cache_hits [of ?s3 ?t ?v "''UEE=''" "audio_response ''UEE=''" "[]"] present
  have c: "generateSpeech_begin ?t ?v ?s3 = (Done (Inr (Some ''UEE='')), ?s3)"
    by blast
  from speech_cache_hits [of ?s3 ?t ?v "''UEE=''" "audio_response ''UEE=''" ?late] present
  have d: "\<exists>stored. generateSpeech_begin ?t ?v (speech_events ?late ?s3)
      = (Done (Inr (Some stored)), speech_events ?late ?s3)"
    by auto
  show ?thesis
    using miss a b64 b c d by (simp add: speech_init_def)
qed

text \<open>
  Claim C9. The cache key joins text and voice with one hyphen, so the pairs
  (\<open>a-b\<close>, \<open>c\<close>) and (\<open>a\<close>, \<open>b-c\<close>) have the same key: once the first
  pair has been synthesised, a synthesis of the second pair returns the payload of the
  first from the cache, whatever the backend would answer, and the only request issued is
  the one for the first pair.
\<close>

theorem cacheKey_collision:
  "cacheKey (Some ''a-b'') ''c'' = cacheKey (Some ''a'') ''b-c''
   \<and> (audioCache s ''a-b-c'' = None \<and> payload \<noteq> []
        \<and> be (SpeechReq (Some ''a-b'') ''c'') = Inr (audio_response payload)
      \<longrightarrow> (\<forall>be'. generateSpeech be' (Some ''a'') ''b-c''
                    (snd (generateSpeech be (Some ''a-b'') ''c'' s))
                 = (Inr (Some payload), snd (generateSpeech be (Some ''a-b'') ''c'' s)))
          \<and> issued (snd (generateSpeech be (Some ''a-b'') ''c'' s))
              = issued s @ [SpeechReq (Some ''a-b'') ''c''])"
proof (intro conjI impI allI)
  show keys: "cacheKey (Some ''a-b'') ''c'' = cacheKey (Some ''a'') ''b-c''"
    by (simp add: cacheKey_def interp_def)
  assume h: "audioCache s ''a-b-c'' = None \<and> payload \<noteq> []
        \<and> be (SpeechReq (Some ''a-b'') ''c'') = Inr (audio_response payload)"
  have k: "cacheKey (Some ''a-b'') ''c'' = ''a-b-c''"
    by (simp add: cacheKey_def interp_def)
  have b64: "base64Audio_of (audio_response payload) = Some payload"
    by (simp add: base64Audio_of_def audio_response_def)
  have eq: "generateSpeech be (Some ''a-b'') ''c'' s =
     (Inr (Some payload),
      s\<lparr>issued := issued s @ [SpeechReq (Some ''a-b'') ''c''],
        audioCache := (audioCache s)(cacheKey (Some ''a-b'') ''c'' \<mapsto> payload)\<rparr>)"
    using h b64
      generateSpeech_miss_success [of s "Some ''a-b''" "''c''" be "audio_response payload" payload]
    by (simp add: k)
  show "issued (snd (generateSpeech be (Some ''a-b'') ''c'' s))
      = issued s @ [SpeechReq (Some ''a-b'') ''c'']"
    by (simp add: eq)
  fix be'
  have "audioCache (snd (generateSpeech be (Some ''a-b'') ''c'' s)) (cacheKey (Some ''a'') ''b-c'')
      = Some payload"
    by (simp add: eq keys [symmetric])
  then show "generateSpeech be' (Some ''a'') ''b-c'' (snd (generateSpeech be (Some ''a-b'') ''c'' s))
      = (Inr (Some payload), snd (generateSpeech be (Some ''a-b'') ''c'' s))"
    by (rule generateSpeech_hit)
qed

theorem cacheKey_collision_witness:
  "audioCache speech_init ''a-b-c'' = None
   \<and> generateSpeech failing_backend (Some ''a'') ''b-c''
        (snd (generateSpeech (\<lambda>r. Inr (audio_response ''QUJD'')) (Some ''a-b'') ''c'' speech_init))
      = (Inr (Some ''QUJD''),
         snd (generateSpeech (\<lambda>r. Inr (audio_response ''QUJD'')) (Some ''a-b'') ''c'' speech_init))
   \<and> issued (snd (generateSpeech (\<lambda>r. Inr (audio_response ''QUJD'')) (Some ''a-b'') ''c'' speech_init))
      = [SpeechReq (Some ''a-b'') ''c'']"
proof -
  let ?be = "\<lambda>r::request. (Inr (audio_response ''QUJD'') :: error + Response)"
  have pre: "audioCache speech_init ''a-b-c'' = None \<and> ''QUJD'' \<noteq> []
        \<and> ?be (SpeechReq (Some ''a-b'') ''c'') = Inr (audio_response ''QUJD'')"
    by (simp add: speech_init_def)
  note t = cacheKey_collision [of speech_init "''QUJD''" ?be]
  from t pre have a: "\<forall>be'. generateSpeech be' (Some ''a'') ''b-c''
        (snd (generateSpeech ?be (Some ''a-b'') ''c'' speech_init))
      = (Inr (Some ''QUJD''), snd (generateSpeech ?be (Some ''a-b'') ''c'' speech_init))"
    by blast
  from t pre have b: "issued (snd (generateSpeech ?be (Some ''a-b'') ''c'' speech_init))
      = issued speech_init @ [SpeechReq (Some ''a-b'') ''c'']"
    by blast
  show ?thesis
    using pre a b by (simp add: speech_init_def)
qed

section \<open>Properties of the capability calls\<close>

lemma translateTextSimple_never_throws:
  "\<exists>t. fst (translateTextSimple be txt targetLang) = Inr t"
  by (simp add: translateTextSimple_def split: sum.splits)

lemma generateSpeech_resume_never_throws:
  "\<exists>v. fst (generateSpeech_resume answer txt voiceName s) = Inr v"
  by (simp add: generateSpeech_resume_def split: option.splits sum.splits)

lemma generateSpeech_begin_never_throws:
  "fst (generateSpeech_begin txt voiceName s) \<noteq> Done (Inl e)"
  by (simp add: generateSpeech_begin_def split: option.splits)

lemma generateSpeech_never_throws:
  "\<exists>v. fst (generateSpeech be txt voiceName s) = Inr v"
proof (cases "audioCache s (cacheKey txt voiceName)")
  case None
  then show ?thesis
    using generateSpeech_resume_never_throws
    by (simp add: generateSpeech_def generateSpeech_begin_def)
next
  case (Some cached)
  then show ?thesis
    by (simp add: generateSpeech_def generateSpeech_begin_def)
qed

lemma generateSpeech_resume_failure:
  "generateSpeech_resume (Inl e) txt voiceName s =
     (Inr None, s\<lparr>speechConsole := speechConsole s @ [''TTS failed'']\<rparr>)"
  by (simp add: generateSpeech_resume_def)

text \<open>
  Claim C4, as amended. The fast translation never throws and returns the empty string,
  with a console line, when the backend fails. Speech synthesis never throws, neither
  before its await nor after it, whatever else has run in between, and returns null, with
  a console line, when the backend fails. The image call writes a console line and throws
  the failure again, and the vector call lets the failure through without a console line;
  the chat and rich-context calls let it through as well.
\<close>

theorem generation_failure_policy:
  "(\<exists>t. fst (translateTextSimple be txt targetLang) = Inr t)
   \<and> (be (TranslateReq txt targetLang) = Inl e
      \<longrightarrow> translateTextSimple be txt targetLang = (Inr [], [''Fast translation failed'']))
   \<and> (\<exists>v. fst (generateSpeech be spoken voiceName s) = Inr v)
   \<and> fst (generateSpeech_begin spoken voiceName s) \<noteq> Done (Inl e)
   \<and> (\<exists>v. fst (generateSpeech_resume answer spoken voiceName s) = Inr v)
   \<and> generateSpeech_resume (Inl e) spoken voiceName s
       = (Inr None, s\<lparr>speechConsole := speechConsole s @ [''TTS failed'']\<rparr>)
   \<and> (audioCache s (cacheKey spoken voiceName) = None \<and> be (SpeechReq spoken voiceName) = Inl e
      \<longrightarrow> fst (generateSpeech be spoken voiceName s) = Inr None
          \<and> speechConsole (snd (generateSpeech be spoken voiceName s))
              = speechConsole s @ [''TTS failed''])
   \<and> (be (ImageReq txt (or_default definitionTxt []) (or_default storyTxt [])) = Inl e
      \<longrightarrow> generateVisualImage be txt definitionTxt storyTxt = (Inl e, [''Image gen failed'']))
   \<and> (be (SvgReq txt (or_default definitionTxt []) (or_default storyTxt [])) = Inl e
      \<longrightarrow> generateVisualSvg be txt definitionTxt storyTxt = (Inl e, []))
   \<and> (be (ChatReq message (systemInstruction context) history) = Inl e
      \<longrightarrow> chatWithAI be message context history = (Inl e, []))
   \<and> (be (RichContextReq txt sourceLang targetLang) = Inl e
      \<longrightarrow> getRichContext parse be txt sourceLang targetLang = (Inl e, []))"
proof (intro conjI impI)
  show "\<exists>t. fst (translateTextSimple be txt targetLang) = Inr t"
    by (rule translateTextSimple_never_throws)
  show "\<exists>v. fst (generateSpeech be spoken voiceName s) = Inr v"
    by (rule generateSpeech_never_throws)
  show "fst (generateSpeech_begin spoken voiceName s) \<noteq> Done (Inl e)"
    by (rule generateSpeech_begin_never_throws)
  show "\<exists>v. fst (generateSpeech_resume answer spoken voiceName s) = Inr v"
    by (rule generateSpeech_resume_never_throws)
  show "generateSpeech_resume (Inl e) spoken voiceName s
      = (Inr None, s\<lparr>speechConsole := speechConsole s @ [''TTS failed'']\<rparr>)"
    by (rule generateSpeech_resume_failure)
next
  assume "be (TranslateReq txt targetLang) = Inl e"
  then show "translateTextSimple be txt targetLang = (Inr [], [''Fast translation failed''])"
    by (simp add: translateTextSimple_def)
next
  assume h: "audioCache s (cacheKey spoken voiceName) = None \<and> be (SpeechReq spoken voiceName) = Inl e"
  then show "fst (generateSpeech be spoken voiceName s) = Inr None"
    by (simp add: generateSpeech_def generateSpeech_begin_def generateSpeech_resume_failure)
  from h show "speechConsole (snd (generateSpeech be spoken voiceName s))
      = speechConsole s @ [''TTS failed'']"
    by (simp add: generateSpeech_def generateSpeech_begin_def generateSpeech_resume_failure)
next
  assume "be (ImageReq txt (or_default definitionTxt []) (or_default storyTxt [])) = Inl e"
  then show "generateVisualImage be txt definitionTxt storyTxt = (Inl e, [''Image gen failed''])"
    by (simp add: generateVisualImage_def)
next
  assume "be (SvgReq txt (or_default definitionTxt []) (or_default storyTxt [])) = Inl e"
  then show "generateVisualSvg be txt definitionTxt storyTxt = (Inl e, [])"
    by (simp add: generateVisualSvg_def)
next
  assume "be (ChatReq message (systemInstruction context) history) = Inl e"
  then show "chatWithAI be message context history = (Inl e, [])"
    by (simp add: chatWithAI_def)
next
  assume "be (RichContextReq txt sourceLang targetLang) = Inl e"
  then show "getRichContext parse be txt sourceLang targetLang = (Inl e, [])"
    by (simp add: getRichContext_def)
qed

text \<open>
  Against claim C4 as stated: on a failing backend the image call and the vector call
  both throw; neither returns null.
\<close>

theorem visual_calls_throw_counterexample:
  "fst (generateVisualImage failing_backend ''cat'' None None) = Inl BackendError
   \<and> fst (generateVisualSvg failing_backend ''cat'' None None) = Inl BackendError"
  by (simp add: generateVisualImage_def generateVisualSvg_def failing_backend_def)

theorem generation_failure_policy_witness:
  "translateTextSimple failing_backend ''cat'' ''Spanish'' = (Inr [], [''Fast translation failed''])
   \<and> fst (generateSpeech failing_backend (Some ''cat'') ''Puck'' speech_init) = Inr None
   \<and> speechConsole (snd (generateSpeech failing_backend (Some ''cat'') ''Puck'' speech_init))
       = [''TTS failed'']
   \<and> generateVisualImage failing_backend ''cat'' None None = (Inl BackendError, [''Image gen failed''])
   \<and> generateVisualSvg failing_backend ''cat'' None None = (Inl BackendError, [])
   \<and> chatWithAI failing_backend ''why?'' ''Word: cat'' [] = (Inl BackendError, [])
   \<and> getRichContext parse_sample failing_backend ''cat'' ''English'' ''Spanish'' = (Inl BackendError, [])"
  using generation_failure_policy [of failing_backend "''cat''" "''Spanish''" BackendError
      "Some ''cat''" "''Puck''" speech_init "Inl BackendError" None None "''why?''"
      "''Word: cat''" "[]" "''English''" parse_sample]
  by (simp add: failing_backend_def speech_init_def)

text \<open>
  When the backend answers, neither illustration call throws. The image call returns null
  exactly when the first part of the response is missing or carries no inline data; the
  vector call returns null exactly when the text of the response, cleaned of code fences
  and trimmed, does not contain \<open><svg\<close>.
\<close>

lemma image_null_iff:
  assumes "be (ImageReq txt (or_default definitionTxt []) (or_default storyTxt [])) = Inr response"
  shows "(\<exists>v. fst (generateVisualImage be txt definitionTxt storyTxt) = Inr v)
     \<and> ((fst (generateVisualImage be txt definitionTxt storyTxt) = Inr None)
          = (case resp_part0 response of None \<Rightarrow> True | Some part \<Rightarrow> inlineData part = None))"
  using assms by (simp add: generateVisualImage_def split: option.splits)

lemma svg_null_iff:
  assumes "be (SvgReq txt (or_default definitionTxt []) (or_default storyTxt [])) = Inr response"
  shows "(\<exists>v. fst (generateVisualSvg be txt definitionTxt storyTxt) = Inr v)
     \<and> ((fst (generateVisualSvg be txt definitionTxt storyTxt) = Inr None)
          = (\<not> includes_str
                (trim (remove_all ''```'' (remove_all ''```svg'' (remove_all ''```xml''
                   (or_default (resp_text response) [])))))
                ''<svg''))"
  using assms by (simp add: generateVisualSvg_def Let_def)

text \<open>
  The caller of the two illustration calls catches what they throw: the visual content
  stays absent, the generating flag is cleared and a console line is written.
\<close>

lemma handleGenerateVisual_catches:
  assumes "ty = Image \<and> be (ImageReq txt (or_default d []) (or_default s [])) = Inl e
           \<or> ty = SVG \<and> be (SvgReq txt (or_default d []) (or_default s [])) = Inl e"
  shows "visualContent (ui (last (handleGenerateVisual be ty txt d s w))) = None
     \<and> \<not> isGeneratingVisual (ui (last (handleGenerateVisual be ty txt d s w)))
     \<and> last (console (last (handleGenerateVisual be ty txt d s w))) = ''Visual gen failed''"
  using assms
  by (auto simp: handleGenerateVisual_def generateVisualImage_def generateVisualSvg_def
      handleGenerateVisual_begin_def log_lines_def Let_def)

section \<open>Properties of the exploration view\<close>

text \<open>
  Claim C8. When a question is sent and the chat call fails, the world in which the call
  is in flight already has the user's message at the end of the transcript, sent with the
  transcript as it was before; the world after the failure has the same transcript, one
  more console line, and the loading indicator cleared.
\<close>

theorem handleSendMessage_failure:
  assumes res: "result (ui w) = Some r"
    and inp: "truthy (trim (chatInput (ui w)))"
    and fails: "be (ChatReq (chatInput (ui w))
                  (systemInstruction (chat_context (inputText (ui w)) r))
                  (map (\<lambda>m. (role m, msg_text m)) (chatMessages (ui w)))) = Inl e"
  shows "\<exists>w1 w2. handleSendMessage be w = [w1, w2]
           \<and> chatMessages (ui w1)
               = chatMessages (ui w) @ [\<lparr>role = User, msg_text = chatInput (ui w)\<rparr>]
           \<and> isChatLoading (ui w1)
           \<and> console w1 = console w
           \<and> chatMessages (ui w2) = chatMessages (ui w1)
           \<and> console w2 = console w @ [''Chat failed'']
           \<and> \<not> isChatLoading (ui w2)"
  using assms by (simp add: handleSendMessage_def chatWithAI_def log_lines_def Let_def)

theorem handleSendMessage_failure_witness:
  "result (ui chat_world) = Some skeleton
   \<and> truthy (trim (chatInput (ui chat_world)))
   \<and> map (\<lambda>w. chatMessages (ui w)) (handleSendMessage failing_backend chat_world)
       = [[\<lparr>role = User, msg_text = ''why?''\<rparr>], [\<lparr>role = User, msg_text = ''why?''\<rparr>]]
   \<and> map console (handleSendMessage failing_backend chat_world) = [[], [''Chat failed'']]
   \<and> map (\<lambda>w. isChatLoading (ui w)) (handleSendMessage failing_backend chat_world) = [True, False]"
proof -
  have res: "result (ui chat_world) = Some skeleton"
    by (simp add: chat_world_def)
  have inp: "truthy (trim (chatInput (ui chat_world)))"
    by (simp add: chat_world_def truthy_def trim_def is_space_def)
  have fails: "failing_backend (ChatReq (chatInput (ui chat_world))
                  (systemInstruction (chat_context (inputText (ui chat_world)) skeleton))
                  (map (\<lambda>m. (role m, msg_text m)) (chatMessages (ui chat_world)))) = Inl BackendError"
    by (simp add: failing_backend_def)
  from handleSendMessage_failure [of chat_world skeleton failing_backend BackendError, OF res inp fails]
  obtain w1 w2 where "handleSendMessage failing_backend chat_world = [w1, w2]"
    and "chatMessages (ui w1)
               = chatMessages (ui chat_world) @ [\<lparr>role = User, msg_text = chatInput (ui chat_world)\<rparr>]"
    and "isChatLoading (ui w1)" and "console w1 = console chat_world"
    and "chatMessages (ui w2) = chatMessages (ui w1)"
    and "console w2 = console chat_world @ [''Chat failed'']"
    and "\<not> isChatLoading (ui w2)"
    by blast
  then show ?thesis
    using res inp by (simp add: chat_world_def world_init_def explore_init_def)
qed





subsection \<open>The search handler\<close>

lemma handleSearch_blank:
  "\<not> truthy (trim (inputText (ui w))) \<Longrightarrow> handleSearch parse be src tgt w = [w]"
  by (simp add: handleSearch_def Let_def)

lemma handleSearch_rich_failure:
  assumes "truthy (trim (inputText (ui w)))"
    and "translateTextSimple be (inputText (ui w)) (label tgt) = (Inr t, log1)"
    and "getRichContext parse be (inputText (ui w)) (label src) (label tgt) = (Inl e, log2)"
  shows "handleSearch parse be src tgt w =
     [search_begin w,
      search_translated src tgt (useAltVoice (ui w)) (inputText (ui w)) t
        (log_lines log1 (search_begin w)),
      search_finally (search_failed (log_lines log2
        (search_translated src tgt (useAltVoice (ui w)) (inputText (ui w)) t
           (log_lines log1 (search_begin w)))))]"
  using assms by (simp add: handleSearch_def Let_def)

lemma handleSearch_rich_success:
  assumes "truthy (trim (inputText (ui w)))"
    and "translateTextSimple be (inputText (ui w)) (label tgt) = (Inr t, log1)"
    and "getRichContext parse be (inputText (ui w)) (label src) (label tgt) = (Inr richData, log2)"
  shows "handleSearch parse be src tgt w =
     [search_begin w,
      search_translated src tgt (useAltVoice (ui w)) (inputText (ui w)) t
        (log_lines log1 (search_begin w)),
      search_finally (search_enriched src tgt (useAltVoice (ui w)) (inputText (ui w)) t richData
        (log_lines log2
          (search_translated src tgt (useAltVoice (ui w)) (inputText (ui w)) t
             (log_lines log1 (search_begin w)))))]"
  using assms by (simp add: handleSearch_def Let_def)

text \<open>
  A call of the handler that nothing overlaps is the trace of its three events: the
  stretches of code of the event model are those of the handler.
\<close>

lemma handleSearch_as_trace:
  assumes "truthy (trim (inputText (ui w)))"
    and "fst (translateTextSimple be (inputText (ui w)) (label tgt)) = Inr t"
  shows "handleSearch parse be src tgt w =
     search_trace src tgt w
       [Submit,
        TranslationArrives (useAltVoice (ui w)) (inputText (ui w))
          (translateTextSimple be (inputText (ui w)) (label tgt)),
        RichArrives (useAltVoice (ui w)) (inputText (ui w)) t
          (getRichContext parse be (inputText (ui w)) (label src) (label tgt))]"
proof -
  obtain log1 where tr: "translateTextSimple be (inputText (ui w)) (label tgt) = (Inr t, log1)"
    using assms(2) by (cases "translateTextSimple be (inputText (ui w)) (label tgt)") auto
  obtain rich log2 where
    ri: "getRichContext parse be (inputText (ui w)) (label src) (label tgt) = (rich, log2)"
    by (cases "getRichContext parse be (inputText (ui w)) (label src) (label tgt)") auto
  show ?thesis
  proof (cases rich)
    case (Inl e)
    then show ?thesis
      using assms(1) handleSearch_rich_failure [OF assms(1) tr] ri
      by (simp add: tr search_submit_def search_on_translation_def search_on_rich_def)
  next
    case (Inr richData)
    then show ?thesis
      using assms(1) handleSearch_rich_success [OF assms(1) tr] ri
      by (simp add: tr search_submit_def search_on_translation_def search_on_rich_def)
  qed
qed

lemma result_search_begin: "result (ui (search_begin w)) = Some skeleton"
  by (simp add: search_begin_def)

lemma result_log_lines: "result (ui (log_lines ls w)) = result (ui w)"
  by (simp add: log_lines_def)

lemma result_search_translated:
  "result (ui (search_translated src tgt alt x t w)) = Some (merge_translation t (result (ui w)))"
  by (simp add: search_translated_def Let_def)

lemma result_search_failed: "result (ui (search_failed w)) = result (ui w)"
  by (simp add: search_failed_def)

lemma result_search_finally: "result (ui (search_finally w)) = result (ui w)"
  by (simp add: search_finally_def)

lemma result_search_enriched:
  "result (ui (search_enriched src tgt alt x t richData w)) =
     Some \<lparr>r_definition = richData ''definition'', r_story = richData ''story'',
           r_translation = js_or (Some t) (richData ''translation''),
           r_definitionTranslation = richData ''definitionTranslation'',
           r_storyTranslation = richData ''storyTranslation''\<rparr>"
  by (simp add: search_enriched_def Let_def handleGenerateVisual_begin_def)

lemmas result_simps = result_search_begin result_log_lines result_search_translated
  result_search_failed result_search_finally result_search_enriched

lemma keeps_fields_refl: "keeps_fields a a"
  by (simp add: keeps_fields_def list_all_iff)

lemma keeps_fields_skeleton: "keeps_fields (Some skeleton) b"
  by (simp add: keeps_fields_def result_fields_def field_of_def skeleton_def truthy_opt_def truthy_def)

lemma keeps_fields_enriched:
  "keeps_fields (Some (merge_translation t (Some skeleton)))
     (Some \<lparr>r_definition = d, r_story = s, r_translation = js_or (Some t) x,
            r_definitionTranslation = dt, r_storyTranslation = st\<rparr>)"
  by (simp add: keeps_fields_def result_fields_def field_of_def skeleton_def truthy_opt_def
      truthy_def merge_translation_def js_or_def)

text \<open>
  In a call of the handler that nothing overlaps, each result shown keeps non-empty
  every field that was non-empty in the result shown before it, and a rich-context call
  that throws after a non-empty fast translation leaves that translation and four empty
  fields.
\<close>

lemma isolated_search_monotone:
  "successively keeps_fields (results_shown (handleSearch parse be src tgt w))
   \<and> (truthy (trim (inputText (ui w)))
       \<and> fst (translateTextSimple be (inputText (ui w)) (label tgt)) = Inr simpleTranslation
       \<and> simpleTranslation \<noteq> []
       \<and> fst (getRichContext parse be (inputText (ui w)) (label src) (label tgt)) = Inl e
      \<longrightarrow> result (ui (last (handleSearch parse be src tgt w)))
            = Some \<lparr>r_definition = Some [], r_story = Some [],
                    r_translation = Some simpleTranslation,
                    r_definitionTranslation = Some [], r_storyTranslation = Some []\<rparr>)"
proof (intro conjI impI)
  show "successively keeps_fields (results_shown (handleSearch parse be src tgt w))"
  proof (cases "truthy (trim (inputText (ui w)))")
    case False
    then show ?thesis
      by (simp add: handleSearch_blank results_shown_def)
  next
    case True
    obtain t log1 where tr: "translateTextSimple be (inputText (ui w)) (label tgt) = (Inr t, log1)"
      using translateTextSimple_never_throws [of be "inputText (ui w)" "label tgt"]
      by (cases "translateTextSimple be (inputText (ui w)) (label tgt)") auto
    obtain rich log2 where
      ri: "getRichContext parse be (inputText (ui w)) (label src) (label tgt) = (rich, log2)"
      by (cases "getRichContext parse be (inputText (ui w)) (label src) (label tgt)") auto
    show ?thesis
    proof (cases rich)
      case (Inl e')
      then show ?thesis
        using handleSearch_rich_failure [OF True tr] ri
        by (simp add: results_shown_def result_simps keeps_fields_skeleton keeps_fields_refl)
    next
      case (Inr richData)
      then show ?thesis
        using handleSearch_rich_success [OF True tr] ri
        by (simp add: results_shown_def result_simps keeps_fields_skeleton keeps_fields_enriched)
    qed
  qed
next
  assume h: "truthy (trim (inputText (ui w)))
       \<and> fst (translateTextSimple be (inputText (ui w)) (label tgt)) = Inr simpleTranslation
       \<and> simpleTranslation \<noteq> []
       \<and> fst (getRichContext parse be (inputText (ui w)) (label src) (label tgt)) = Inl e"
  obtain log1 where tr:
    "translateTextSimple be (inputText (ui w)) (label tgt) = (Inr simpleTranslation, log1)"
    using h by (cases "translateTextSimple be (inputText (ui w)) (label tgt)") auto
  obtain log2 where ri:
    "getRichContext parse be (inputText (ui w)) (label src) (label tgt) = (Inl e, log2)"
    using h by (cases "getRichContext parse be (inputText (ui w)) (label src) (label tgt)") auto
  from h have nonblank: "truthy (trim (inputText (ui w)))" by simp
  show "result (ui (last (handleSearch parse be src tgt w)))
            = Some \<lparr>r_definition = Some [], r_story = Some [],
                    r_translation = Some simpleTranslation,
                    r_definitionTranslation = Some [], r_storyTranslation = Some []\<rparr>"
    by (simp add: handleSearch_rich_failure [OF nonblank tr ri] result_simps
        merge_translation_def skeleton_def)
qed

lemma sample_input: "truthy (trim (inputText (ui (world_init ''hello''))))"
  by (simp add: world_init_def truthy_def trim_def is_space_def)

lemma sample_translation:
  "translateTextSimple translating_backend ''hello'' ''Spanish'' = (Inr ''hola'', [])"
  "translateTextSimple textless_backend ''hello'' ''Spanish'' = (Inr ''hola'', [])"
  "translateTextSimple failing_backend ''hello'' ''Spanish'' = (Inr [], [''Fast translation failed''])"
  by (simp_all add: translateTextSimple_def translating_backend_def textless_backend_def
      failing_backend_def text_response_def or_default_def truthy_def trim_def is_space_def)

lemma overlapping_searches_results:
  "results_shown (search_trace english spanish (world_init ''hello'') overlapping_searches)
     = [Some skeleton, Some skeleton,
        Some (skeleton\<lparr>r_translation := Some ''hola''\<rparr>),
        Some (skeleton\<lparr>r_translation := Some []\<rparr>)]"
proof -
  have submit: "search_submit w = search_begin w" if "inputText (ui w) = ''hello''" for w
    using that by (simp add: search_submit_def truthy_def trim_def is_space_def)
  have i0: "inputText (ui (world_init ''hello'')) = ''hello''"
    by (simp add: world_init_def)
  have i1: "inputText (ui (search_begin w)) = inputText (ui w)" for w
    by (simp add: search_begin_def)
  show ?thesis
    by (simp add: overlapping_searches_def results_shown_def sample_translation submit i0 i1
        search_on_translation_def result_simps merge_translation_def)
qed

text \<open>
  Claim C1, at the input where the code departs from it. Enter is pressed twice on the
  text \<open>hello\<close> before any answer, so that two calls of the search handler overlap. The
  fast translation of the first call arrives and is shown; then the fast translation of
  the second call, failed and so empty, arrives and is merged into the result shown: the
  translation goes back from \<open>hola\<close> to the empty string.
\<close>

theorem overlapping_searches_revert:
  "results_shown (search_trace english spanish (world_init ''hello'') overlapping_searches)
     = [Some skeleton, Some skeleton,
        Some (skeleton\<lparr>r_translation := Some ''hola''\<rparr>),
        Some (skeleton\<lparr>r_translation := Some []\<rparr>)]
   \<and> field_of r_translation
        (results_shown (search_trace english spanish (world_init ''hello'') overlapping_searches) ! 2)
       = Some ''hola''
   \<and> field_of r_translation
        (results_shown (search_trace english spanish (world_init ''hello'') overlapping_searches) ! 3)
       = Some []
   \<and> truthy_opt (Some ''hola'') \<and> \<not> truthy_opt (Some [])"
  by (simp add: overlapping_searches_results field_of_def truthy_opt_def truthy_def)

text \<open>
  So the results shown by overlapping calls of the handler are not monotone, in the sense
  in which those of a call that nothing overlaps are.
\<close>

lemma overlapping_searches_not_monotone:
  "\<not> successively keeps_fields
       (results_shown (search_trace english spanish (world_init ''hello'') overlapping_searches))"
proof -
  have "\<not> keeps_fields (Some (skeleton\<lparr>r_translation := Some ''hola''\<rparr>))
         (Some (skeleton\<lparr>r_translation := Some []\<rparr>))"
    by (simp add: keeps_fields_def result_fields_def field_of_def skeleton_def truthy_opt_def
        truthy_def)
  then show ?thesis
    by (simp add: overlapping_searches_results)
qed

subsection \<open>A rich-context response without text\<close>

lemma getRichContext_without_text:
  assumes "be (RichContextReq txt sourceLabel targetLabel) = Inr response"
    and "resp_text response = None"
    and "parse ''{}'' = Inr Map.empty"
  shows "getRichContext parse be txt sourceLabel targetLabel = (Inr Map.empty, [])"
  using assms by (simp add: getRichContext_def or_default_def)

text \<open>
  Claim C10, as amended. When the backend answers the rich-context call with a response
  without text (and \<open>JSON.parse\<close> reads \<open>{}\<close> as the empty object), the call returns
  the empty object and does not throw. The stretch of the search handler that receives
  it, in whatever world it runs, replaces the result: definition, story and their two
  translations become absent, and the translation is the fast translation of that call
  when it is non-empty and absent only when it is empty; nothing is written to the
  console and the search ends. So it is for the last result of a call of the handler
  that nothing overlaps.
\<close>

theorem rich_context_without_text:
  assumes answered: "be (RichContextReq txt (label src) (label tgt)) = Inr response"
    and notext: "resp_text response = None"
    and empty_object: "parse ''{}'' = Inr Map.empty"
  shows "getRichContext parse be txt (label src) (label tgt) = (Inr Map.empty, [])
     \<and> result (ui (search_on_rich src tgt alt txt simpleTranslation
          (getRichContext parse be txt (label src) (label tgt)) w))
         = Some \<lparr>r_definition = None, r_story = None,
                 r_translation = (if simpleTranslation = [] then None else Some simpleTranslation),
                 r_definitionTranslation = None, r_storyTranslation = None\<rparr>
     \<and> console (search_on_rich src tgt alt txt simpleTranslation
          (getRichContext parse be txt (label src) (label tgt)) w) = console w
     \<and> \<not> isSearching (ui (search_on_rich src tgt alt txt simpleTranslation
          (getRichContext parse be txt (label src) (label tgt)) w))
     \<and> (truthy (trim (inputText (ui w0))) \<and> inputText (ui w0) = txt
          \<and> fst (translateTextSimple be txt (label tgt)) = Inr simpleTranslation
        \<longrightarrow> result (ui (last (handleSearch parse be src tgt w0)))
              = Some \<lparr>r_definition = None, r_story = None,
                      r_translation = (if simpleTranslation = [] then None else Some simpleTranslation),
                      r_definitionTranslation = None, r_storyTranslation = None\<rparr>)"
proof (intro conjI impI)
  show rich: "getRichContext parse be txt (label src) (label tgt) = (Inr Map.empty, [])"
    using assms by (rule getRichContext_without_text)
  show "result (ui (search_on_rich src tgt alt txt simpleTranslation
          (getRichContext parse be txt (label src) (label tgt)) w))
         = Some \<lparr>r_definition = None, r_story = None,
                 r_translation = (if simpleTranslation = [] then None else Some simpleTranslation),
                 r_definitionTranslation = None, r_storyTranslation = None\<rparr>"
    by (simp add: rich search_on_rich_def result_simps js_or_def truthy_opt_def truthy_def)
  show "console (search_on_rich src tgt alt txt simpleTranslation
          (getRichContext parse be txt (label src) (label tgt)) w) = console w"
    by (simp add: rich search_on_rich_def search_finally_def search_enriched_def log_lines_def
        Let_def)
  show "\<not> isSearching (ui (search_on_rich src tgt alt txt simpleTranslation
          (getRichContext parse be txt (label src) (label tgt)) w))"
    by (simp add: rich search_on_rich_def search_finally_def)
next
  assume h: "truthy (trim (inputText (ui w0))) \<and> inputText (ui w0) = txt
          \<and> fst (translateTextSimple be txt (label tgt)) = Inr simpleTranslation"
  then have nonblank: "truthy (trim (inputText (ui w0)))" and inp: "inputText (ui w0) = txt"
    by blast+
  obtain log1 where tr:
    "translateTextSimple be (inputText (ui w0)) (label tgt) = (Inr simpleTranslation, log1)"
    using h by (cases "translateTextSimple be txt (label tgt)") auto
  have rich: "getRichContext parse be (inputText (ui w0)) (label src) (label tgt)
      = (Inr Map.empty, [])"
    unfolding inp using assms by (rule getRichContext_without_text)
  show "result (ui (last (handleSearch parse be src tgt w0)))
         = Some \<lparr>r_definition = None, r_story = None,
                 r_translation = (if simpleTranslation = [] then None else Some simpleTranslation),
                 r_definitionTranslation = None, r_storyTranslation = None\<rparr>"
    by (simp add: handleSearch_rich_success [OF nonblank tr rich] result_simps js_or_def
        truthy_opt_def truthy_def)
qed

lemma textless_search_result:
  "result (ui (last (handleSearch parse_sample textless_backend english spanish
       (world_init ''hello''))))
     = Some \<lparr>r_definition = None, r_story = None, r_translation = Some ''hola'',
             r_definitionTranslation = None, r_storyTranslation = None\<rparr>"
proof -
  have inp: "inputText (ui (world_init ''hello'')) = ''hello''"
    by (simp add: world_init_def)
  have nonblank: "truthy (trim (inputText (ui (world_init ''hello''))))"
    by (rule sample_input)
  have tr: "translateTextSimple textless_backend (inputText (ui (world_init ''hello'')))
      (label spanish) = (Inr ''hola'', [])"
    by (simp add: inp spanish_def sample_translation)
  have rich: "getRichContext parse_sample textless_backend (inputText (ui (world_init ''hello'')))
      (label english) (label spanish) = (Inr Map.empty, [])"
    by (simp add: getRichContext_def textless_backend_def text_response_def or_default_def
        parse_sample_def)
  show ?thesis
    by (simp add: handleSearch_rich_success [OF nonblank tr rich] result_simps js_or_def
        truthy_opt_def truthy_def)
qed

text \<open>
  Against claim C10 as stated: a search for \<open>hello\<close> whose fast translation is
  \<open>hola\<close> and whose rich-context response has no text ends with the translation
  \<open>hola\<close> in the result; not all the translations have become absent.
\<close>

theorem textless_keeps_translation_counterexample:
  "field_of r_translation
     (result (ui (last (handleSearch parse_sample textless_backend english spanish
        (world_init ''hello''))))) = Some ''hola''
   \<and> field_of r_definition
     (result (ui (last (handleSearch parse_sample textless_backend english spanish
        (world_init ''hello''))))) = None"
  by (simp add: textless_search_result field_of_def)

theorem rich_context_without_text_witness:
  "textless_backend (RichContextReq ''hello'' (label english) (label spanish))
       = Inr (text_response None)
   \<and> resp_text (text_response None) = None
   \<and> parse_sample ''{}'' = Inr Map.empty
   \<and> getRichContext parse_sample textless_backend ''hello'' (label english) (label spanish)
       = (Inr Map.empty, [])
   \<and> result (ui (search_on_rich english spanish False ''hello'' ''hola''
        (getRichContext parse_sample textless_backend ''hello'' (label english) (label spanish))
        chat_world))
       = Some \<lparr>r_definition = None, r_story = None, r_translation = Some ''hola'',
               r_definitionTranslation = None, r_storyTranslation = None\<rparr>
   \<and> result (ui (search_on_rich english spanish False ''hello'' []
        (getRichContext parse_sample textless_backend ''hello'' (label english) (label spanish))
        chat_world))
       = Some \<lparr>r_definition = None, r_story = None, r_translation = None,
               r_definitionTranslation = None, r_storyTranslation = None\<rparr>
   \<and> result (ui (last (handleSearch parse_sample textless_backend english spanish
         (world_init ''hello''))))
       = Some \<lparr>r_definition = None, r_story = None, r_translation = Some ''hola'',
               r_definitionTranslation = None, r_storyTranslation = None\<rparr>"
proof -
  have a: "textless_backend (RichContextReq ''hello'' (label english) (label spanish))
      = Inr (text_response None)"
    by (simp add: textless_backend_def)
  have b: "resp_text (text_response None) = None"
    by (simp add: text_response_def)
  have c: "parse_sample ''{}'' = Inr Map.empty"
    by (simp add: parse_sample_def)
  have d: "truthy (trim (inputText (ui (world_init ''hello''))))
      \<and> inputText (ui (world_init ''hello'')) = ''hello''
      \<and> fst (translateTextSimple textless_backend ''hello'' (label spanish)) = Inr ''hola''"
    using sample_input by (simp add: world_init_def spanish_def sample_translation)
  note t1 = rich_context_without_text [of textless_backend "''hello''" english spanish
      "text_response None" parse_sample False "''hola''" chat_world "world_init ''hello''",
      OF a b c]
  note t2 = rich_context_without_text [of textless_backend "''hello''" english spanish
      "text_response None" parse_sample False "[]" chat_world "world_init ''hello''",
      OF a b c]
  from t1 d have "result (ui (last (handleSearch parse_sample textless_backend english spanish
         (world_init ''hello''))))
       = Some \<lparr>r_definition = None, r_story = None,
               r_translation = (if ''hola'' = [] then None else Some ''hola''),
               r_definitionTranslation = None, r_storyTranslation = None\<rparr>"
    by blast
  then have e: "result (ui (last (handleSearch parse_sample textless_backend english spanish
         (world_init ''hello''))))
       = Some \<lparr>r_definition = None, r_story = None, r_translation = Some ''hola'',
               r_definitionTranslation = None, r_storyTranslation = None\<rparr>"
    by simp
  from t1 have g: "getRichContext parse_sample textless_backend ''hello'' (label english)
      (label spanish) = (Inr Map.empty, [])"
    by blast
  from t1 have "result (ui (search_on_rich english spanish False ''hello'' ''hola''
        (getRichContext parse_sample textless_backend ''hello'' (label english) (label spanish))
        chat_world))
       = Some \<lparr>r_definition = None, r_story = None,
               r_translation = (if ''hola'' = [] then None else Some ''hola''),
               r_definitionTranslation = None, r_storyTranslation = None\<rparr>"
    by blast
  then have r1: "result (ui (search_on_rich english spanish False ''hello'' ''hola''
        (getRichContext parse_sample textless_backend ''hello'' (label english) (label spanish))
        chat_world))
       = Some \<lparr>r_definition = None, r_story = None, r_translation = Some ''hola'',
               r_definitionTranslation = None, r_storyTranslation = None\<rparr>"
    by simp
  from t2 have "result (ui (search_on_rich english spanish False ''hello'' []
        (getRichContext parse_sample textless_backend ''hello'' (label english) (label spanish))
        chat_world))
       = Some \<lparr>r_definition = None, r_story = None,
               r_translation = (if ([] :: string) = [] then None else Some []),
               r_definitionTranslation = None, r_storyTranslation = None\<rparr>"
    by blast
  then have r2: "result (ui (search_on_rich english spanish False ''hello'' []
        (getRichContext parse_sample textless_backend ''hello'' (label english) (label spanish))
        chat_world))
       = Some \<lparr>r_definition = None, r_story = None, r_translation = None,
               r_definitionTranslation = None, r_storyTranslation = None\<rparr>"
    by simp
  show ?thesis
    by (intro conjI a b c g r1 r2 e)
qed

section \<open>Properties of the audio subsystem\<close>

lemma uint_byte_bounds: "0 \<le> uint (b :: 8 word) \<and> uint b < 256"
  using uint_bounded [of b] by simp

lemma uint_word_cat_bytes:
  "uint (word_cat hi lo :: 16 word) = uint lo + 256 * uint hi" for hi lo :: "8 word"
proof -
  have "uint (word_cat hi lo :: 16 word) = take_bit 16 (concat_bit 8 (uint lo) (uint hi))"
    by (simp add: word_cat_eq' uint_word_of_int_eq)
  also have "concat_bit 8 (uint lo) (uint hi) = uint lo + 256 * uint hi"
    using uint_byte_bounds [of lo]
    by (simp add: concat_bit_eq take_bit_eq_mod push_bit_eq_mult)
  also have "take_bit 16 (uint lo + 256 * uint hi) = uint lo + 256 * uint hi"
    using uint_byte_bounds [of lo] uint_byte_bounds [of hi]
    by (simp add: take_bit_eq_mod)
  finally show ?thesis .
qed

lemma sint_word_cat_bytes:
  "sint (word_cat hi lo :: 16 word) = int16_le lo hi" for hi lo :: "8 word"
proof -
  let ?u = "uint lo + 256 * uint hi"
  have range: "0 \<le> ?u \<and> ?u < 65536"
    using uint_byte_bounds [of lo] uint_byte_bounds [of hi] by simp
  have "sint (word_cat hi lo :: 16 word) = signed_take_bit 15 ?u"
    by (simp add: sint_uint uint_word_cat_bytes)
  also have "\<dots> = take_bit 16 (?u + 32768) - 32768"
    by (simp add: signed_take_bit_eq_take_bit_shift)
  also have "\<dots> = (if ?u < 32768 then ?u else ?u - 65536)"
  proof (cases "?u < 32768")
    case True
    then have "(?u + 32768) mod 65536 = ?u + 32768"
      using range by simp
    then show ?thesis using True by (simp add: take_bit_eq_mod)
  next
    case False
    then have "(?u + 32768) mod 65536 = ?u + 32768 - 65536"
      using range by (simp add: mod_pos_geq)
    then show ?thesis using False by (simp add: take_bit_eq_mod)
  qed
  finally show ?thesis
    by (simp add: int16_le_def Let_def)
qed

lemma length_int16_view: "length (int16_view data) = length data div 2"
  by (induction data rule: int16_view.induct) simp_all

lemma int16_view_Nil_iff: "(int16_view data = []) = (length data div 2 = 0)"
  by (metis length_0_conv length_int16_view)

lemma int16_view_nth:
  "i < length data div 2 \<Longrightarrow>
   int16_view data ! i = word_cat (data ! (2 * i + 1)) (data ! (2 * i))"
proof (induction data arbitrary: i rule: int16_view.induct)
  case (1 lo hi rest)
  then show ?case by (cases i) simp_all
qed simp_all

lemma pcm_sample_range: "- 1 \<le> pcm_sample s \<and> pcm_sample s < 1"
proof -
  have "- 32768 \<le> sint s \<and> sint s < 32768"
    using sint_ge [of s] sint_lt [of s] by simp
  then have "- 32768 \<le> real_of_int (sint s) \<and> real_of_int (sint s) < 32768"
    by (simp del: of_int_sint)
  then show ?thesis by (simp add: pcm_sample_def del: of_int_sint)
qed

lemma playAudio_cases:
  "decodeBase64 atob p = Inr data \<Longrightarrow> decodeAudioData data 24000 1 = Inr buf \<Longrightarrow>
   nodes (playAudio atob p cb st) =
     nodes (stopAudio (st\<lparr>calls := Suc (calls st)\<rparr>))
       @ [\<lparr>status = Playing, owner = calls st, hasOnEnded = cb, buffer = buf\<rparr>]"
  by (simp add: playAudio_def Let_def playback_started_def)

text \<open>
  Claim C7. The decoder, as \<open>playAudio\<close> calls it (24000 Hz, one channel), accepts
  every non-empty payload of even length. Its buffer has that rate and one channel of
  half as many samples as there are bytes; sample \<open>i\<close> is the signed little-endian
  value of bytes \<open>2i\<close> and \<open>2i+1\<close> divided by 32768, and lies between -1 and 1;
  and this buffer is the one that \<open>playAudio\<close> gives to the source node it starts.
  Each quotient is a multiple of \<open>1/32768\<close> of magnitude at most 1, which a 32-bit
  float holds exactly, so the real numbers here are the stored samples.
\<close>

theorem decodeAudioData_pcm:
  "(even (length data) \<and> data \<noteq> [] \<longrightarrow> (\<exists>b. decodeAudioData data 24000 1 = Inr b))
   \<and> (decodeAudioData data 24000 1 = Inr buf \<longrightarrow>
        sampleRate buf = 24000 \<and> numberOfChannels buf = 1
        \<and> length (channelData buf) = 1
        \<and> length (channelData buf ! 0) = length data div 2
        \<and> (\<forall>i < length data div 2.
              channelData buf ! 0 ! i
                = real_of_int (int16_le (data ! (2 * i)) (data ! (2 * i + 1))) / 32768
              \<and> - 1 \<le> channelData buf ! 0 ! i \<and> channelData buf ! 0 ! i \<le> 1)
        \<and> (decodeBase64 atob p = Inr data
             \<longrightarrow> buffer (last (nodes (playAudio atob p cb st))) = buf))"
proof (intro conjI impI allI)
  assume "even (length data) \<and> data \<noteq> []"
  then have e: "even (length data)" and "0 < length data"
    by simp_all
  then have "length data div 2 \<noteq> 0"
    by presburger
  with e
  show "\<exists>b. decodeAudioData data 24000 1 = Inr b"
    by (simp add: decodeAudioData_def Let_def int16_view_Nil_iff)
next
  assume ok: "decodeAudioData data 24000 1 = Inr buf"
  then have buf: "buf = \<lparr>sampleRate = 24000, numberOfChannels = 1,
      channelData = [map (\<lambda>i. pcm_sample (int16_view data ! i)) [0..<length data div 2]]\<rparr>"
    by (simp add: decodeAudioData_def Let_def length_int16_view int16_view_Nil_iff split: if_splits)
  show "sampleRate buf = 24000" and "numberOfChannels buf = 1"
    and "length (channelData buf) = 1" and "length (channelData buf ! 0) = length data div 2"
    by (simp_all add: buf)
  {
    fix i assume i: "i < length data div 2"
    have s: "channelData buf ! 0 ! i = pcm_sample (word_cat (data ! (2 * i + 1)) (data ! (2 * i)))"
      using i by (simp add: buf int16_view_nth)
    show "channelData buf ! 0 ! i
        = real_of_int (int16_le (data ! (2 * i)) (data ! (2 * i + 1))) / 32768"
      by (simp only: s pcm_sample_def sint_word_cat_bytes)
    show "- 1 \<le> channelData buf ! 0 ! i" and "channelData buf ! 0 ! i \<le> 1"
      using pcm_sample_range [of "word_cat (data ! (2 * i + 1)) (data ! (2 * i))"]
      by (simp_all only: s) simp_all
  }
  assume "decodeBase64 atob p = Inr data"
  then show "buffer (last (nodes (playAudio atob p cb st))) = buf"
    using ok by (simp add: playAudio_cases)
qed

theorem decodeAudioData_pcm_witness:
  "even (length [0x00, 0x80, 0xFF, 0x7F :: 8 word])
   \<and> decodeAudioData [0x00, 0x80, 0xFF, 0x7F] 24000 1
     = Inr \<lparr>sampleRate = 24000, numberOfChannels = 1, channelData = [[- 1, 32767 / 32768]]\<rparr>
   \<and> real_of_int (int16_le 0x00 0x80) / 32768 = - 1
   \<and> real_of_int (int16_le 0xFF 0x7F) / 32768 = 32767 / 32768
   \<and> decodeAudioData [0x00, 0x80, 0xFF] 24000 1 = Inl RangeError"
proof -
  let ?data = "[0x00, 0x80, 0xFF, 0x7F] :: 8 word list"
  let ?buf = "\<lparr>sampleRate = 24000, numberOfChannels = 1,
      channelData = [[- 1, 32767 / 32768 :: real]]\<rparr>"
  have c: "decodeAudioData [0x00, 0x80, 0xFF] 24000 1 = Inl RangeError"
    by (simp add: decodeAudioData_def)
  have ok: "decodeAudioData ?data 24000 1 = Inr ?buf"
    by (simp add: decodeAudioData_def Let_def pcm_sample_def sint_word_cat_bytes int16_le_def
        upt_rec del: of_int_sint)
  note t = decodeAudioData_pcm [of ?data ?buf]
  from t ok have g: "\<forall>i < length ?data div 2.
      channelData ?buf ! 0 ! i = real_of_int (int16_le (?data ! (2 * i)) (?data ! (2 * i + 1))) / 32768"
    by blast
  have g0: "real_of_int (int16_le 0x00 0x80) / 32768 = - 1"
    using g [rule_format, of 0] by simp
  have g1: "real_of_int (int16_le 0xFF 0x7F) / 32768 = 32767 / 32768"
    using g [rule_format, of 1] by simp
  show ?thesis
    using ok c g0 g1 by simp
qed

lemma sample_decodeBase64: "decodeBase64 atob_sample ''AAA='' = Inr [0, 0]"
  by (simp add: decodeBase64_def atob_sample_def)

lemma sample_decodeAudioData: "decodeAudioData [0, 0] 24000 (Suc 0) = Inr silence"
  by (simp add: decodeAudioData_def Let_def pcm_sample_def sint_word_cat_bytes int16_le_def
      silence_def)

lemma playAudio_sample:
  "playAudio atob_sample ''AAA='' cb st =
     (stopAudio (st\<lparr>calls := Suc (calls st)\<rparr>))
       \<lparr>audioContext := Some Running,
        nodes := nodes (stopAudio (st\<lparr>calls := Suc (calls st)\<rparr>))
                   @ [\<lparr>status = Playing, owner = calls st, hasOnEnded = cb, buffer = silence\<rparr>],
        currentSource := Some (length (nodes (stopAudio (st\<lparr>calls := Suc (calls st)\<rparr>))))\<rparr>"
  by (simp add: playAudio_def Let_def sample_decodeBase64 sample_decodeAudioData
      playback_started_def)

text \<open>
  Claim C6, at the input where the code departs from it. Three playbacks are requested,
  each while the previous one plays, and the browser delivers the \<open>ended\<close> event of
  the first, stopped, source between the second and the third request. The handler of
  that event clears \<open>currentSource\<close> although it now holds the second source, so
  the third request stops nothing: the second and the third source play together.
\<close>

theorem playback_exclusivity_violation:
  "currentSource (audio_run atob_sample [Play ''AAA='' True, Play ''AAA='' True] audio_init) = Some 1
   \<and> map status (nodes (audio_run atob_sample [Play ''AAA='' True, Play ''AAA='' True] audio_init))
       = [EndPending, Playing]
   \<and> currentSource (audio_run atob_sample
        [Play ''AAA='' True, Play ''AAA='' True, EndedEvent 0] audio_init) = None
   \<and> map status (nodes (audio_run atob_sample
        [Play ''AAA='' True, Play ''AAA='' True, EndedEvent 0] audio_init))
       = [Finished, Playing]
   \<and> map status (nodes (audio_run atob_sample
        [Play ''AAA='' True, Play ''AAA='' True, EndedEvent 0, Play ''AAA='' True] audio_init))
       = [Finished, Playing, Playing]
   \<and> active_sources (audio_run atob_sample
        [Play ''AAA='' True, Play ''AAA='' True, EndedEvent 0, Play ''AAA='' True] audio_init)
       = [1, 2]"
proof -
  let ?node = "\<lambda>st k. \<lparr>status = st, owner = k, hasOnEnded = True, buffer = silence\<rparr>"
  let ?S1 = "\<lparr>audioContext = Some Running, currentSource = Some 0,
      nodes = [?node Playing 0], calls = 1, endedCalls = [], audioConsole = []\<rparr>"
  let ?S2 = "\<lparr>audioContext = Some Running, currentSource = Some 1,
      nodes = [?node EndPending 0, ?node Playing 1], calls = 2, endedCalls = [],
      audioConsole = []\<rparr>"
  let ?S3 = "\<lparr>audioContext = Some Running, currentSource = None,
      nodes = [?node Finished 0, ?node Playing 1], calls = 2, endedCalls = [0],
      audioConsole = []\<rparr>"
  let ?S4 = "\<lparr>audioContext = Some Running, currentSource = Some 2,
      nodes = [?node Finished 0, ?node Playing 1, ?node Playing 2], calls = 3,
      endedCalls = [0], audioConsole = []\<rparr>"
  have step1: "playAudio atob_sample ''AAA='' True audio_init = ?S1"
    by (simp add: playAudio_sample audio_init_def stopAudio_def)
  have step2: "playAudio atob_sample ''AAA='' True ?S1 = ?S2"
    by (simp add: playAudio_sample stopAudio_def stop_node_def)
  have step3: "onended 0 ?S2 = ?S3"
    by (simp add: onended_def)
  have step4: "playAudio atob_sample ''AAA='' True ?S3 = ?S4"
    by (simp add: playAudio_sample stopAudio_def)
  have r2: "audio_run atob_sample [Play ''AAA='' True, Play ''AAA='' True] audio_init = ?S2"
    by (simp only: audio_run_def foldl.simps audio_step.simps step1 step2)
  have r3: "audio_run atob_sample [Play ''AAA='' True, Play ''AAA='' True, EndedEvent 0] audio_init
      = ?S3"
    by (simp only: audio_run_def foldl.simps audio_step.simps step1 step2 step3)
  have r4: "audio_run atob_sample
      [Play ''AAA='' True, Play ''AAA='' True, EndedEvent 0, Play ''AAA='' True] audio_init = ?S4"
    by (simp only: audio_run_def foldl.simps audio_step.simps step1 step2 step3 step4)
  have active: "active_sources ?S4 = [1, 2]"
    by (simp add: active_sources_def numeral_3_eq_3)
  show ?thesis
    unfolding r2 r3 r4 active by simp
qed

subsection \<open>Each \<open>onEnded\<close> callback runs at most once\<close>

text \<open>
  Whatever the calls of \<open>playAudio\<close> and \<open>stopAudio\<close> and whatever the
  browser events, no playback has its \<open>onEnded\<close> callback run twice, be it ended,
  superseded or failed during setup.
\<close>

lemma length_stop_node [simp]: "length (stop_node i ns) = length ns"
  by (simp add: stop_node_def)

lemma owner_stop_node [simp]: "j < length ns \<Longrightarrow> owner (stop_node i ns ! j) = owner (ns ! j)"
  by (simp add: stop_node_def nth_list_update)

lemma map_owner_stop_node [simp]: "map owner (stop_node i ns) = map owner ns"
  by (rule nth_equalityI) simp_all

lemma finished_stop_node [simp]:
  "j < length ns \<Longrightarrow> (status (stop_node i ns ! j) = Finished) = (status (ns ! j) = Finished)"
  by (auto simp: stop_node_def nth_list_update)

lemma callbacks_ok_init: "callbacks_ok audio_init"
  by (simp add: callbacks_ok_def audio_init_def)

lemma callbacks_ok_stopAudio: "callbacks_ok st \<Longrightarrow> callbacks_ok (stopAudio st)"
  by (simp add: callbacks_ok_def stopAudio_def split: option.splits)

lemma callbacks_ok_buffer_end: "callbacks_ok st \<Longrightarrow> callbacks_ok (buffer_end i st)"
  by (simp add: callbacks_ok_def buffer_end_def)

lemma callbacks_ok_calls: "callbacks_ok st \<Longrightarrow> callbacks_ok (st\<lparr>calls := Suc (calls st)\<rparr>)"
  by (auto simp: callbacks_ok_def less_Suc_eq)

lemma stopAudio_fields [simp]:
  "calls (stopAudio st) = calls st" "endedCalls (stopAudio st) = endedCalls st"
  by (simp_all add: stopAudio_def split: option.splits)

lemma callbacks_ok_context:
  "callbacks_ok (st\<lparr>audioContext := c\<rparr>) = callbacks_ok st"
  by (simp add: callbacks_ok_def)

lemma callbacks_ok_failed:
  assumes ok: "callbacks_ok st" and fresh: "k \<notin> set (endedCalls st)"
    and owners: "\<forall>j < length (nodes st). owner (nodes st ! j) \<noteq> k" and k: "k < calls st"
  shows "callbacks_ok (playback_failed k cb st)"
  using assms by (auto simp: callbacks_ok_def playback_failed_def)

lemma callbacks_ok_started:
  assumes ok: "callbacks_ok st" and fresh: "k \<notin> set (endedCalls st)"
    and owners: "\<forall>j < length (nodes st). owner (nodes st ! j) \<noteq> k" and k: "k < calls st"
  shows "callbacks_ok (playback_started k cb b st)"
proof -
  let ?new = "\<lparr>status = Playing, owner = k, hasOnEnded = cb, buffer = b\<rparr>"
  let ?S = "playback_started k cb b st"
  have n: "nodes ?S = nodes st @ [?new]" "endedCalls ?S = endedCalls st" "calls ?S = calls st"
    by (simp_all add: playback_started_def)
  from ok have o1: "distinct (endedCalls st)"
    and o2: "\<forall>i \<in> set (endedCalls st). i < calls st"
    and o3: "\<forall>j < length (nodes st). owner (nodes st ! j) < calls st"
    and o4: "distinct (map owner (nodes st))"
    and o5: "\<forall>j < length (nodes st). status (nodes st ! j) \<noteq> Finished
              \<longrightarrow> owner (nodes st ! j) \<notin> set (endedCalls st)"
    by (simp_all add: callbacks_ok_def)
  have p3: "\<forall>j < length (nodes st @ [?new]). owner ((nodes st @ [?new]) ! j) < calls st"
    using o3 k by (simp add: nth_append less_Suc_eq)
  have "k \<notin> set (map owner (nodes st))"
  proof
    assume "k \<in> set (map owner (nodes st))"
    then obtain j where "j < length (nodes st)" and "owner (nodes st ! j) = k"
      by (auto simp: in_set_conv_nth)
    with owners show False by blast
  qed
  then have p4: "distinct (map owner (nodes st @ [?new]))"
    using o4 by simp
  have p5: "\<forall>j < length (nodes st @ [?new]). status ((nodes st @ [?new]) ! j) \<noteq> Finished
              \<longrightarrow> owner ((nodes st @ [?new]) ! j) \<notin> set (endedCalls st)"
    using o5 fresh by (simp add: nth_append less_Suc_eq)
  show ?thesis
    unfolding callbacks_ok_def n using o1 o2 p3 p4 p5 by blast
qed

lemma callbacks_ok_playAudio:
  assumes "callbacks_ok st"
  shows "callbacks_ok (playAudio atob p cb st)"
proof -
  let ?st2 = "(stopAudio (st\<lparr>calls := Suc (calls st)\<rparr>))\<lparr>audioContext := Some Running\<rparr>"
  have ok2: "callbacks_ok ?st2"
    using assms by (simp add: callbacks_ok_context callbacks_ok_stopAudio callbacks_ok_calls)
  have k: "calls st < calls ?st2"
    by simp
  have fresh: "calls st \<notin> set (endedCalls ?st2)"
    using assms by (auto simp: callbacks_ok_def)
  have "\<forall>j < length (nodes st). owner (nodes st ! j) \<noteq> calls st"
    using assms by (auto simp: callbacks_ok_def)
  then have owners: "\<forall>j < length (nodes ?st2). owner (nodes ?st2 ! j) \<noteq> calls st"
    by (auto simp: stopAudio_def split: option.splits)
  note failed = callbacks_ok_failed [OF ok2 fresh owners k]
  note started = callbacks_ok_started [OF ok2 fresh owners k]
  show ?thesis
  proof (cases "decodeBase64 atob p")
    case (Inl e)
    then show ?thesis
      using failed by (simp add: playAudio_def Let_def)
  next
    case (Inr bytes)
    then show ?thesis
      using failed started
      by (cases "decodeAudioData bytes 24000 1") (simp_all add: playAudio_def Let_def)
  qed
qed

lemma callbacks_ok_onended:
  assumes "callbacks_ok st"
  shows "callbacks_ok (onended i st)"
proof (cases "i < length (nodes st) \<and> status (nodes st ! i) = EndPending")
  case False
  then show ?thesis using assms by (auto simp: onended_def)
next
  case True
  then have i: "i < length (nodes st)" and pending: "status (nodes st ! i) = EndPending"
    by simp_all
  have fresh: "owner (nodes st ! i) \<notin> set (endedCalls st)"
    using assms i pending by (simp add: callbacks_ok_def)
  have owners: "map owner ((nodes st)[i := (nodes st ! i)\<lparr>status := Finished\<rparr>]) = map owner (nodes st)"
    using i by (simp add: map_update list_update_same_conv)
  have other: "owner (nodes st ! j) \<noteq> owner (nodes st ! i)" if "j < length (nodes st)" "j \<noteq> i" for j
    using assms i that by (auto simp: callbacks_ok_def distinct_conv_nth)
  show ?thesis
    using assms True fresh other
    by (auto simp: onended_def callbacks_ok_def owners nth_list_update)
qed

lemma callbacks_ok_step: "callbacks_ok st \<Longrightarrow> callbacks_ok (audio_step atob st ev)"
  by (cases ev)
    (simp_all add: callbacks_ok_playAudio callbacks_ok_stopAudio callbacks_ok_buffer_end
      callbacks_ok_onended)

lemma callbacks_ok_run: "callbacks_ok st \<Longrightarrow> callbacks_ok (audio_run atob evs st)"
  unfolding audio_run_def
  by (induction evs arbitrary: st) (simp_all add: callbacks_ok_step)

lemma distinct_count_le_1: "distinct xs \<Longrightarrow> count_list xs k \<le> 1"
  by (induction xs) (auto simp: count_list_0_iff)

lemma onEnded_at_most_once:
  "count_list (endedCalls (audio_run atob evs audio_init)) k \<le> 1"
proof -
  have "distinct (endedCalls (audio_run atob evs audio_init))"
    using callbacks_ok_run [OF callbacks_ok_init] by (simp add: callbacks_ok_def)
  then show ?thesis
    by (rule distinct_count_le_1)
qed

end
